theory Spec2Isabelle
  imports Complex_Main "HOL-Library.Word" "HOL-Library.Sublist" "HOL-Library.Multiset"
    "HOL-Library.Log_Nat"
begin

unbundle bit_operations_syntax

section \<open>PitchScore: the mock scoring engine of pitch_score_web_app_mvp_react.jsx\<close>

text \<open>
  The development embeds the scoring engine of the single source file: \<open>hashScore\<close>,
  \<open>pickGenresFromText\<close>, \<open>mockScoreRequest\<close> and the part of \<open>handleSubmit\<close> that builds
  the options object.

  Conventions of the embedding.
  \<^item> A JavaScript string is the list of its UTF-16 code units (\<open>charCodeAt\<close>, \<open>length\<close>
    and the regular expressions without the \<open>u\<close> flag all work on code units).
  \<^item> The hash is a \<open>32 word\<close>: \<open>>>> 0\<close> is reduction modulo \<open>2^32\<close>; \<open>h >> k\<close> reads the
    same bits as a signed 32-bit integer and shifts arithmetically; \<open>%\<close> takes the sign
    of the dividend.
  \<^item> A JavaScript number is an IEEE 754 double, modelled as the real number it
    denotes. Every arithmetic operation and every numeric literal yields the double
    nearest to the exact result (\<open>fl\<close>, ties to even). \<open>NaN\<close>, the infinities, the sign
    of zero and overflow have no counterpart. The one place kept in decimals is the
    similarity of a nearest item: it is the two-decimal number \<open>toFixed(2)\<close> prints,
    where the code holds the double nearest to that number.
  \<^item> The regular expressions of \<open>KEYMAP\<close> carry the flag \<open>g\<close>, so each object owns a
    mutable \<open>lastIndex\<close>. That state is threaded explicitly through the engine.
  \<^item> The artificial delay (\<open>setTimeout\<close>) has no effect on the returned value and is
    not modelled.
\<close>

subsection \<open>Strings\<close>

type_synonym jschar = "16 word"
type_synonym jsstring = "jschar list"

definition str :: "string \<Rightarrow> jsstring" where
  \<comment> \<open>an ASCII literal as a JavaScript string\<close>
  "str s = map of_char s"

fun join :: "jsstring \<Rightarrow> jsstring list \<Rightarrow> jsstring" where
  \<comment> \<open>\<open>Array.prototype.join\<close> on an array of strings\<close>
  "join sep [] = []"
| "join sep [x] = x"
| "join sep (x # y # ys) = x @ sep @ join sep (y # ys)"

subsection \<open>The categories\<close>

text \<open>
  \<open>GENRES\<close> is a fixed array of ten labels; the form only ever puts these labels into
  \<open>options.genres\<close>, and \<open>KEYMAP\<close> only names these labels. The labels are an
  enumeration; \<open>label\<close> gives the string of each one (\<open>0xF3\<close> is o with acute accent,
  \<open>0x2011\<close> the non-breaking hyphen of the source text).
\<close>

datatype genre =
  Accion | Aventura | Comedia | Drama | Romance | Terror | SciFi | Thriller | Fantasia | Animacion

definition GENRES :: "genre list" where
  "GENRES = [Accion, Aventura, Comedia, Drama, Romance, Terror, SciFi, Thriller, Fantasia, Animacion]"

fun label :: "genre \<Rightarrow> jsstring" where
  "label Accion = str ''Acci'' @ [0xF3] @ str ''n''"
| "label Aventura = str ''Aventura''"
| "label Comedia = str ''Comedia''"
| "label Drama = str ''Drama''"
| "label Romance = str ''Romance''"
| "label Terror = str ''Terror''"
| "label SciFi = str ''Sci'' @ [0x2011] @ str ''Fi''"
| "label Thriller = str ''Thriller''"
| "label Fantasia = str ''Fantasia''"
| "label Animacion = str ''Animaci'' @ [0xF3] @ str ''n''"

subsection \<open>hashScore\<close>

text \<open>
  \<^verbatim>\<open>let h = 0; for (i...) h = (h * 31 + str.charCodeAt(i)) >>> 0; return h;\<close>
  The product \<open>h * 31 + c\<close> stays below \<open>2^53\<close>, so the double computes it exactly and
  \<open>>>> 0\<close> reduces it modulo \<open>2^32\<close>: word arithmetic.
\<close>

definition hashScore :: "jsstring \<Rightarrow> 32 word" where
  "hashScore s = foldl (\<lambda>h c. h * 31 + ucast c) 0 s"

definition sar :: "32 word \<Rightarrow> nat \<Rightarrow> int" where
  \<comment> \<open>\<open>h >> k\<close>: the operand is converted with ToInt32, the shift keeps the sign\<close>
  "sar h k = sint (signed_drop_bit k h)"

definition js_rem :: "int \<Rightarrow> int \<Rightarrow> int" where
  \<comment> \<open>\<open>a % b\<close> on integers: truncated division, the result has the sign of \<open>a\<close>\<close>
  "js_rem a b = sgn a * (\<bar>a\<bar> mod \<bar>b\<bar>)"

subsection \<open>JSON.stringify of the options object\<close>

record options =
  genres :: "genre list"
  tone :: "jsstring option"
  rating :: jsstring
  budget_hint_usd :: "real option"

text \<open>
  \<open>None\<close> is \<open>undefined\<close>. \<open>JSON.stringify\<close> writes the properties in the order of the
  object literal of \<open>handleSubmit\<close> (genres, tone, rating, budget\_hint\_usd) and leaves
  out the ones whose value is \<open>undefined\<close>. Strings are quoted by QuoteJSONString.
\<close>

definition hexdigit :: "nat \<Rightarrow> jschar" where
  "hexdigit n = (if n < 10 then of_nat (48 + n) else of_nat (87 + n))"

definition unicode_escape :: "jschar \<Rightarrow> jsstring" where
  \<comment> \<open>\<open>\uXXXX\<close> with lower-case hexadecimal digits\<close>
  "unicode_escape c =
     [0x5C, 0x75, hexdigit (unat c div 4096), hexdigit (unat c div 256 mod 16),
      hexdigit (unat c div 16 mod 16), hexdigit (unat c mod 16)]"

definition quote_unit :: "jschar \<Rightarrow> jsstring" where
  "quote_unit c =
     (if c = 0x08 then [0x5C, 0x62]
      else if c = 0x09 then [0x5C, 0x74]
      else if c = 0x0A then [0x5C, 0x6E]
      else if c = 0x0C then [0x5C, 0x66]
      else if c = 0x0D then [0x5C, 0x72]
      else if c = 0x22 then [0x5C, 0x22]
      else if c = 0x5C then [0x5C, 0x5C]
      else if c < 0x20 then unicode_escape c
      else [c])"

definition lead_surrogate :: "jschar \<Rightarrow> bool" where
  "lead_surrogate c = (0xD800 \<le> c \<and> c \<le> 0xDBFF)"

definition trail_surrogate :: "jschar \<Rightarrow> bool" where
  "trail_surrogate c = (0xDC00 \<le> c \<and> c \<le> 0xDFFF)"

fun quote_body :: "jsstring \<Rightarrow> jsstring" where
  "quote_body [] = []"
| "quote_body [c] =
     (if lead_surrogate c \<or> trail_surrogate c then unicode_escape c else quote_unit c)"
| "quote_body (c # d # ds) =
     (if lead_surrogate c then
        (if trail_surrogate d then c # d # quote_body ds
         else unicode_escape c @ quote_body (d # ds))
      else if trail_surrogate c then unicode_escape c @ quote_body (d # ds)
      else quote_unit c @ quote_body (d # ds))"

definition quote_json :: "jsstring \<Rightarrow> jsstring" where
  "quote_json s = [0x22] @ quote_body s @ [0x22]"

definition JSON_stringify :: "(real \<Rightarrow> jsstring) \<Rightarrow> options \<Rightarrow> jsstring" where
  \<comment> \<open>the first argument is Number::toString, the decimal text of a finite number\<close>
  "JSON_stringify num opts =
     str ''{'' @
     join (str '','')
       ([str ''\"genres\":['' @ join (str '','') (map (quote_json \<circ> label) (genres opts)) @ str '']'']
        @ (case tone opts of None \<Rightarrow> [] | Some t \<Rightarrow> [str ''\"tone\":'' @ quote_json t])
        @ [str ''\"rating\":'' @ quote_json (rating opts)]
        @ (case budget_hint_usd opts of None \<Rightarrow> []
           | Some b \<Rightarrow> [str ''\"budget_hint_usd\":'' @ num b]))
     @ str ''}''"

function digits :: "int \<Rightarrow> jsstring" where
  \<comment> \<open>the decimal digits of a whole number that is not negative\<close>
  "digits n = (if n < 10 then [of_int (48 + n)] else digits (n div 10) @ [of_int (48 + n mod 10)])"
  by pat_completeness auto
termination
  by (relation "measure nat") auto

definition whole_number_text :: "real \<Rightarrow> jsstring" where
  \<comment> \<open>Number::toString at a whole number of magnitude below \<open>10^21\<close>: an optional minus
      sign and the decimal digits. At any other argument this is not the text JavaScript
      writes; the function is applied to whole numbers only, and the general theorems
      hold for every rendering function.\<close>
  "whole_number_text x = (if x < 0 then str ''-'' else []) @ digits \<lfloor>\<bar>x\<bar>\<rfloor>"

declare digits.simps [simp del]

definition default_options :: options where
  \<comment> \<open>what \<open>handleSubmit\<close> builds from the untouched form:
      \<^verbatim>\<open>{genres: [], tone: undefined, rating: "PG-13", budget_hint_usd: undefined}\<close>\<close>
  "default_options = \<lparr>genres = [], tone = None, rating = str ''PG-13'', budget_hint_usd = None\<rparr>"

subsection \<open>Regular expressions: alternatives of literal words, flag \<open>i\<close>\<close>

text \<open>
  Every regular expression of the source is an alternation of literal words and carries
  the flag \<open>i\<close> without the flag \<open>u\<close>. Two code units then match when their
  canonical forms agree, the canonical form being the upper-case code unit. The pattern
  characters of the source are the letters a to z, the space and the two letters
  \<open>0xF3\<close> and \<open>0xFA\<close> (o and u with acute accent); \<open>canonicalize\<close> is the
  upper-casing of the ASCII and Latin-1 letters, which decides every comparison against
  those pattern characters (no code unit outside Latin-1 has one of their canonical
  forms).
\<close>

definition canonicalize :: "jschar \<Rightarrow> jschar" where
  "canonicalize c =
     (if (0x61 \<le> c \<and> c \<le> 0x7A) \<or> (0xE0 \<le> c \<and> c \<le> 0xFE \<and> c \<noteq> 0xF7) then c - 0x20 else c)"

fun matches_at :: "jsstring \<Rightarrow> jsstring \<Rightarrow> bool" where
  \<comment> \<open>the literal word matches at the start of the text\<close>
  "matches_at [] t = True"
| "matches_at (p # ps) [] = False"
| "matches_at (p # ps) (c # cs) = (canonicalize c = canonicalize p \<and> matches_at ps cs)"

fun first_alt :: "jsstring list \<Rightarrow> jsstring \<Rightarrow> nat option" where
  \<comment> \<open>an alternation takes its first alternative that matches; the result is the
      length of the match\<close>
  "first_alt [] t = None"
| "first_alt (p # ps) t = (if matches_at p t then Some (length p) else first_alt ps t)"

function find_match :: "jsstring list \<Rightarrow> jsstring \<Rightarrow> nat \<Rightarrow> (nat \<times> nat) option" where
  \<comment> \<open>the leftmost match at an index not below \<open>i\<close>: its start and its length\<close>
  "find_match alts t i =
     (if length t < i then None
      else case first_alt alts (drop i t) of
             Some n \<Rightarrow> Some (i, n)
           | None \<Rightarrow> find_match alts t (Suc i))"
  by pat_completeness auto
termination
  by (relation "measure (\<lambda>(alts, t, i). Suc (length t) - i)") auto

declare find_match.simps [simp del]

definition regexp_test :: "jsstring list \<Rightarrow> jsstring \<Rightarrow> bool" where
  \<comment> \<open>\<open>RegExp.prototype.test\<close> of an expression without the flag \<open>g\<close>: the search
      starts at index 0 and \<open>lastIndex\<close> is neither read nor written\<close>
  "regexp_test alts t = (find_match alts t 0 \<noteq> None)"

definition regexp_exec :: "jsstring list \<Rightarrow> jsstring \<Rightarrow> nat \<Rightarrow> (nat \<times> nat) option \<times> nat" where
  \<comment> \<open>RegExpBuiltinExec of an expression with the flag \<open>g\<close>: the search starts at
      \<open>lastIndex\<close>; a failure resets \<open>lastIndex\<close> to 0, a success moves it to the end of
      the match. The result pairs the match with the new \<open>lastIndex\<close>.\<close>
  "regexp_exec alts t lastIndex =
     (case find_match alts t lastIndex of
        None \<Rightarrow> (None, 0)
      | Some (i, n) \<Rightarrow> (Some (i, n), i + n))"

lemma find_match_Some:
  "find_match alts t i = Some (j, n) \<Longrightarrow> i \<le> j \<and> j \<le> length t"
proof (induction alts t i rule: find_match.induct)
  case (1 alts t i)
  show ?case
  proof (cases "length t < i")
    case True
    with "1.prems" show ?thesis by (simp add: find_match.simps)
  next
    case False
    show ?thesis
    proof (cases "first_alt alts (drop i t)")
      case None
      with False "1.prems" have "find_match alts t (Suc i) = Some (j, n)"
        by (simp add: find_match.simps [of alts t i])
      with "1.IH" [OF False None] show ?thesis by simp
    next
      case (Some m)
      with False "1.prems" show ?thesis
        by (simp add: find_match.simps [of alts t i])
    qed
  qed
qed

function match_loop :: "jsstring list \<Rightarrow> jsstring \<Rightarrow> nat \<Rightarrow> nat \<Rightarrow> nat \<times> nat" where
  \<comment> \<open>the loop of \<open>RegExp.prototype[Symbol.match]\<close> for the flag \<open>g\<close>: \<open>n\<close> counts the
      matches found, an empty match advances \<open>lastIndex\<close> by one\<close>
  "match_loop alts t lastIndex n =
     (case regexp_exec alts t lastIndex of
        (None, li) \<Rightarrow> (n, li)
      | (Some (i, len), li) \<Rightarrow> match_loop alts t (if len = 0 then Suc li else li) (Suc n))"
  by pat_completeness auto
termination
proof (relation "measure (\<lambda>(alts, t, li, n). Suc (length t) - li)", goal_cases)
  case 1
  show ?case by simp
next
  case (2 alts t lastIndex n x1 li x2 i len)
  from 2 have "find_match alts t lastIndex = Some (i, len)" and "li = i + len"
    by (auto simp: regexp_exec_def split: option.splits)
  with find_match_Some [of alts t lastIndex i len] show ?case by auto
qed

declare match_loop.simps [simp del]

definition string_match :: "jsstring list \<Rightarrow> jsstring \<Rightarrow> nat \<Rightarrow> nat option \<times> nat" where
  \<comment> \<open>\<open>text.match(k)\<close> for \<open>k\<close> with the flag \<open>g\<close> and the given \<open>lastIndex\<close>: the method
      first stores 0 in \<open>lastIndex\<close>, then collects all matches. The result is \<open>null\<close>
      (\<open>None\<close>) or the length of the array of matches, with the final \<open>lastIndex\<close>.\<close>
  "string_match alts t lastIndex =
     (case match_loop alts t 0 0 of (n, li) \<Rightarrow> (if n = 0 then None else Some n, li))"

subsection \<open>KEYMAP and pickGenresFromText\<close>

definition KEYMAP :: "(jsstring list \<times> genre) list" where
  "KEYMAP =
    [([str ''space'', str ''nave'', str ''planeta'', str ''robot'', str ''ia'',
       str ''inteligencia artificial'', str ''futuro'', str ''alien''], SciFi),
     ([str ''crimen'', str ''asesin'', str ''investigaci'', str ''misterio'',
       str ''conspiraci'', str ''persecuci''], Thriller),
     ([str ''risa'', str ''chiste'', str ''comedia'', str ''humor'', str ''torpe'',
       str ''situaci''], Comedia),
     ([str ''amor'', str ''relaci'', str ''pareja'', str ''romance'', str ''coraz''], Romance),
     ([str ''magia'', str ''reino'', str ''hechic'', str ''drag'', str ''fantas''], Fantasia),
     ([str ''miedo'', str ''fantasma'', str ''demon'', str ''pose'', str ''slasher'',
       str ''terror''], Terror),
     ([str ''batalla'', str ''guerra'', str ''rebel'', str ''conflicto'',
       str ''misi'' @ [0xF3] @ str ''n'', str ''acci'' @ [0xF3] @ str ''n''], Accion),
     ([str ''viaje'', str ''b'' @ [0xFA] @ str ''squeda'', str ''tesoro'', str ''aventur''],
      Aventura),
     ([str ''animaci'', str ''dibujo'', str ''stop motion''], Animacion),
     ([str ''drama'', str ''familia'', str ''superar'', str ''enfermedad'', str ''duelo''],
      Drama)]"

type_synonym regex_state = "genre \<Rightarrow> nat"
  \<comment> \<open>the \<open>lastIndex\<close> of the regular expression of each \<open>KEYMAP\<close> entry, named by
      the category of the entry\<close>

fun map_set :: "('k \<times> 'v) list \<Rightarrow> 'k \<Rightarrow> 'v \<Rightarrow> ('k \<times> 'v) list" where
  \<comment> \<open>\<open>Map.prototype.set\<close>: a \<open>Map\<close> keeps its keys in the order of their first
      insertion; setting a present key keeps its place\<close>
  "map_set [] k v = [(k, v)]"
| "map_set ((k', v') # m) k v = (if k' = k then (k, v) # m else (k', v') # map_set m k v)"

definition map_get_or0 :: "('k \<times> nat) list \<Rightarrow> 'k \<Rightarrow> nat" where
  \<comment> \<open>\<open>matches.get(g) || 0\<close>\<close>
  "map_get_or0 m k = (case map_of m k of None \<Rightarrow> 0 | Some v \<Rightarrow> v)"

fun insort_cmp :: "('a \<Rightarrow> 'a \<Rightarrow> 'b::{zero,linorder}) \<Rightarrow> 'a \<Rightarrow> 'a list \<Rightarrow> 'a list" where
  "insort_cmp cmp x [] = [x]"
| "insort_cmp cmp x (y # ys) = (if cmp x y \<le> 0 then x # y # ys else y # insort_cmp cmp x ys)"

definition js_sort :: "('a \<Rightarrow> 'a \<Rightarrow> 'b::{zero,linorder}) \<Rightarrow> 'a list \<Rightarrow> 'a list" where
  \<comment> \<open>\<open>Array.prototype.sort\<close> with a comparison function. The sort is stable, and for a
      comparison function that orders by a key the stable result is unique: it is the one
      insertion sort builds.\<close>
  "js_sort cmp xs = foldr (insort_cmp cmp) xs []"

fun pick_loop ::
  "(jsstring list \<times> genre) list \<Rightarrow> jsstring \<Rightarrow> (genre \<times> nat) list \<Rightarrow> regex_state
     \<Rightarrow> (genre \<times> nat) list \<times> regex_state" where
  \<comment> \<open>\<^verbatim>\<open>for (const { k, g } of KEYMAP) { const m = text.match(k);
        if (m && m.length) matches.set(g, (matches.get(g) || 0) + m.length); }\<close>\<close>
  "pick_loop [] text matches st = (matches, st)"
| "pick_loop ((k, g) # rest) text matches st =
     (case string_match k text (st g) of
        (m, li) \<Rightarrow>
          pick_loop rest text
            (case m of None \<Rightarrow> matches
             | Some n \<Rightarrow> map_set matches g (map_get_or0 matches g + n))
            (st(g := li)))"

definition pickGenresFromText :: "regex_state \<Rightarrow> jsstring \<Rightarrow> genre list \<times> regex_state" where
  \<comment> \<open>\<^verbatim>\<open>return [...matches.entries()].sort((a, b) => b[1] - a[1]).map(([g]) => g);\<close>\<close>
  "pickGenresFromText st text =
     (case pick_loop KEYMAP text [] st of
        (matches, st') \<Rightarrow>
          (map fst (js_sort (\<lambda>a b. int (snd b) - int (snd a)) matches), st'))"

subsection \<open>The response\<close>

record movie =
  title :: jsstring
  year :: nat
  roi :: "real option"

record scored_movie = movie +
  similarity :: real

record radar_profile =
  originality :: real
  clarity :: real
  audience_appeal :: real
  budget_feasibility :: real
  production_risk :: real

record driver =
  feature :: jsstring
  impact :: real

record score_response =
  p_success :: real
  radar :: radar_profile
  drivers :: "driver list"
  nearest_movies :: "scored_movie list"
  genreGuess :: "genre list"

subsection \<open>Double-precision arithmetic\<close>

definition rne :: "real \<Rightarrow> int" where
  \<comment> \<open>the nearest integer, the even one of two equally near\<close>
  "rne y =
     (let n = \<lfloor>y\<rfloor>; r = y - real_of_int n
      in if r < 1 / 2 then n else if 1 / 2 < r then n + 1 else if even n then n else n + 1)"

definition binade :: "real \<Rightarrow> int" where
  \<comment> \<open>the exponent \<open>e\<close> with \<open>2^e \<le> \<bar>x\<bar> < 2^(e+1)\<close>, for \<open>x \<noteq> 0\<close>\<close>
  "binade x =
     (if 1 \<le> \<bar>x\<bar> then bitlen \<lfloor>\<bar>x\<bar>\<rfloor> - 1 else - bitlen (\<lceil>1 / \<bar>x\<bar>\<rceil> - 1))"

definition fl :: "real \<Rightarrow> real" where
  \<comment> \<open>the double nearest to \<open>x\<close>: 53 significant bits, the smallest exponent \<open>-1022\<close>
      (below it the spacing stays \<open>2^-1074\<close>), ties to even\<close>
  "fl x =
     (if x = 0 then 0
      else let u = 2 powi (max (binade x) (- 1022) - 52) in real_of_int (rne (x / u)) * u)"

definition Math_tanh :: "real \<Rightarrow> real" where
  \<comment> \<open>\<open>Math.tanh\<close> is implementation-approximated; it is taken as correctly rounded\<close>
  "Math_tanh x = fl (tanh x)"

definition toFixed :: "nat \<Rightarrow> real \<Rightarrow> real" where
  \<comment> \<open>the decimal that \<open>x.toFixed(d)\<close> prints: the multiple of \<open>10^-d\<close> nearest to \<open>x\<close>; of
      two equally near ones \<open>toFixed\<close> takes the one of larger magnitude\<close>
  "toFixed d x = sgn x * real_of_int \<lfloor>\<bar>x\<bar> * 10 ^ d + 1 / 2\<rfloor> / 10 ^ d"

subsection \<open>mockScoreRequest\<close>

definition base :: "jsstring \<Rightarrow> real" where
  \<comment> \<open>\<^verbatim>\<open>Math.min(0.4 + (Math.tanh((pitch.length - 400) / 600) + 1) * 0.25, 0.95)\<close>\<close>
  "base pitch =
     min (fl (fl 0.4 + fl (fl (Math_tanh (fl ((real (length pitch) - 400) / 600)) + 1) * 0.25)))
         (fl 0.95)"

definition effective_genres :: "options \<Rightarrow> genre list \<Rightarrow> genre list" where
  \<comment> \<open>\<^verbatim>\<open>options.genres?.length ? options.genres
        : (guessed.length ? guessed.slice(0, 2) : ["Drama"])\<close>\<close>
  "effective_genres opts guessed =
     (if genres opts \<noteq> [] then genres opts
      else if guessed \<noteq> [] then take 2 guessed else [Drama])"

fun genre_prior :: "genre \<Rightarrow> real" where
  \<comment> \<open>the object literal of genre priors; \<open>|| 0\<close> for the labels it does not list\<close>
  "genre_prior Comedia = fl 0.03"
| "genre_prior SciFi = fl 0.02"
| "genre_prior Terror = 0"
| "genre_prior Drama = - fl 0.01"
| "genre_prior Romance = - fl 0.02"
| "genre_prior Thriller = fl 0.01"
| "genre_prior Accion = fl 0.01"
| "genre_prior g = 0"

definition genreAdj :: "genre list \<Rightarrow> real" where
  \<comment> \<open>\<^verbatim>\<open>genres.reduce((acc, g) => acc + ({...}[g] || 0), 0)\<close>\<close>
  "genreAdj gs = foldl (\<lambda>acc g. fl (acc + genre_prior g)) 0 gs"

definition epic_words :: "jsstring list" where
  \<comment> \<open>The literal of the source is \<^verbatim>\<open>/\x08(space|batalla|drag|epic|guerra)\x08/i\<close>, where
      \<^verbatim>\<open>\x08\<close> stands for a raw backspace character (U+0008) in the source text: an
      ordinary pattern character on either side of the group. For \<open>test\<close> the expression
      matches where one of the five words, with a backspace before and after it, matches.\<close>
  "epic_words =
     map (\<lambda>w. [0x08] @ w @ [0x08])
       [str ''space'', str ''batalla'', str ''drag'', str ''epic'', str ''guerra'']"

definition budget :: "jsstring \<Rightarrow> options \<Rightarrow> real" where
  \<comment> \<open>\<^verbatim>\<open>options.budget_hint_usd ?? (/.../i.test(pitch) ? 40000000 : 8000000)\<close>\<close>
  "budget pitch opts =
     (case budget_hint_usd opts of
        Some b \<Rightarrow> b
      | None \<Rightarrow> if regexp_test epic_words pitch then 40000000 else 8000000)"

definition budgetPeer :: "genre list \<Rightarrow> real" where
  "budgetPeer gs =
     (if SciFi \<in> set gs \<or> Accion \<in> set gs \<or> Fantasia \<in> set gs then 30000000 else 8000000)"

definition budgetFeasibility :: "real \<Rightarrow> real \<Rightarrow> real" where
  \<comment> \<open>\<^verbatim>\<open>Math.max(0, Math.min(1, 1 - Math.abs(budget - budgetPeer) / Math.max(1, budgetPeer * 2)))\<close>\<close>
  "budgetFeasibility b peer =
     max 0 (min 1 (fl (1 - fl (\<bar>fl (b - peer)\<bar> / max 1 (fl (peer * 2))))))"

definition originality_val :: "32 word \<Rightarrow> genre list \<Rightarrow> real" where
  \<comment> \<open>\<^verbatim>\<open>Math.max(0, Math.min(1, ((h % 100) / 100) * 0.6 + (new Set(genres).size >= 2 ? 0.2 : 0.05)))\<close>;
      \<open>h\<close> itself is the unsigned value\<close>
  "originality_val h gs =
     max 0 (min 1 (fl (fl (fl (real (unat h mod 100) / 100) * fl 0.6)
                       + (if 2 \<le> card (set gs) then fl 0.2 else fl 0.05))))"

definition clarity_val :: "32 word \<Rightarrow> real" where
  \<comment> \<open>\<^verbatim>\<open>Math.max(0, Math.min(1, 0.5 + ((h >> 5) % 50) / 150))\<close>\<close>
  "clarity_val h = max 0 (min 1 (fl (0.5 + fl (real_of_int (js_rem (sar h 5) 50) / 150))))"

definition audience :: "32 word \<Rightarrow> genre list \<Rightarrow> real" where
  \<comment> \<open>\<^verbatim>\<open>Math.max(0, Math.min(1, 0.4 + (genres.includes("Comedia") || genres.includes("Terror")
        ? 0.1 : 0) + ((h >> 7) % 30) / 200))\<close>\<close>
  "audience h gs =
     max 0 (min 1 (fl (fl (fl 0.4 + (if Comedia \<in> set gs \<or> Terror \<in> set gs then fl 0.1 else 0))
                       + fl (real_of_int (js_rem (sar h 7) 30) / 200))))"

definition productionRisk :: "32 word \<Rightarrow> real \<Rightarrow> real" where
  \<comment> \<open>\<^verbatim>\<open>Math.max(0, 1 - budgetFeasibility * 0.7 - ((h >> 9) % 20) / 100)\<close>\<close>
  "productionRisk h bf =
     max 0 (fl (fl (1 - fl (bf * fl 0.7)) - fl (real_of_int (js_rem (sar h 9) 20) / 100)))"

definition weighted :: "real \<Rightarrow> real \<Rightarrow> real" where
  \<comment> \<open>a weighted term \<^verbatim>\<open>(x - 0.5) * w\<close> of the \<open>p_success\<close> formula and of \<open>drivers\<close>\<close>
  "weighted x w = fl (fl (x - 0.5) * fl w)"

definition p_success_val :: "real \<Rightarrow> real \<Rightarrow> real \<Rightarrow> real \<Rightarrow> real \<Rightarrow> real \<Rightarrow> real" where
  \<comment> \<open>\<^verbatim>\<open>Math.max(0.05, Math.min(0.95, base + genreAdj + (originality - 0.5) * 0.15
        + (audience - 0.5) * 0.12 + (budgetFeasibility - 0.5) * 0.18 - (productionRisk - 0.5) * 0.15))\<close>;
      the sum is taken from left to right\<close>
  "p_success_val b ga orig aud bf pr =
     max (fl 0.05) (min (fl 0.95)
       (fl (fl (fl (fl (fl (b + ga) + weighted orig 0.15) + weighted aud 0.12)
                + weighted bf 0.18) - weighted pr 0.15)))"

definition drivers_unsorted ::
  "genre list \<Rightarrow> real \<Rightarrow> real \<Rightarrow> real \<Rightarrow> real \<Rightarrow> real \<Rightarrow> driver list" where
  \<comment> \<open>the array literal of \<open>drivers\<close> before \<open>.sort\<close>; \<^verbatim>\<open>+(t).toFixed(3)\<close> prints the
      double \<open>t\<close> with three decimals and reads the text back as a double\<close>
  "drivers_unsorted gs ga orig aud bf pr =
     [\<lparr>feature = join (str ''+'') (map label gs), impact = fl (toFixed 3 ga)\<rparr>,
      \<lparr>feature = str ''originality_index'', impact = fl (toFixed 3 (weighted orig 0.15))\<rparr>,
      \<lparr>feature = str ''audience_appeal'', impact = fl (toFixed 3 (weighted aud 0.12))\<rparr>,
      \<lparr>feature = str ''budget_vs_peers'', impact = fl (toFixed 3 (weighted bf 0.18))\<rparr>,
      \<lparr>feature = str ''production_risk'', impact = - fl (toFixed 3 (weighted pr 0.15))\<rparr>]"

definition drivers_val ::
  "genre list \<Rightarrow> real \<Rightarrow> real \<Rightarrow> real \<Rightarrow> real \<Rightarrow> real \<Rightarrow> driver list" where
  \<comment> \<open>\<^verbatim>\<open>.sort((a, b) => Math.abs(b.impact) - Math.abs(a.impact))\<close>; the difference of two
      doubles is rounded to a double of the same sign, and only the sign is used\<close>
  "drivers_val gs ga orig aud bf pr =
     js_sort (\<lambda>a b. \<bar>impact b\<bar> - \<bar>impact a\<bar>) (drivers_unsorted gs ga orig aud bf pr)"

definition pool :: "movie list" where
  "pool =
    [\<lparr>title = str ''Ex Machina'', year = 2014, roi = Some 3.7\<rparr>,
     \<lparr>title = str ''Annihilation'', year = 2018, roi = Some 1.4\<rparr>,
     \<lparr>title = str ''Get Out'', year = 2017, roi = Some 7.1\<rparr>,
     \<lparr>title = str ''A Quiet Place'', year = 2018, roi = Some 5.4\<rparr>,
     \<lparr>title = str ''Her'', year = 2013, roi = Some 2.9\<rparr>,
     \<lparr>title = str ''Crazy Rich Asians'', year = 2018, roi = Some 7.3\<rparr>,
     \<lparr>title = str ''Parasite'', year = 2019, roi = Some 20.0\<rparr>,
     \<lparr>title = str ''Knives Out'', year = 2019, roi = Some 4.2\<rparr>,
     \<lparr>title = str ''Mad Max: Fury Road'', year = 2015, roi = Some 2.7\<rparr>,
     \<lparr>title = str ''The Conjuring'', year = 2013, roi = Some 13.3\<rparr>]"

definition with_similarity :: "32 word \<Rightarrow> nat \<times> movie \<Rightarrow> scored_movie" where
  \<comment> \<open>\<^verbatim>\<open>(m, i) => ({ ...m, similarity: +(0.6 + ((h >> (i + 1)) % 35) / 100).toFixed(2) })\<close>\<close>
  "with_similarity h im =
     (case im of (i, m) \<Rightarrow>
        \<lparr>title = title m, year = year m, roi = roi m,
         similarity = toFixed 2 (0.6 + real_of_int (js_rem (sar h (i + 1)) 35) / 100)\<rparr>)"

definition sims :: "32 word \<Rightarrow> scored_movie list" where
  \<comment> \<open>\<^verbatim>\<open>pool.map(...).sort((a, b) => b.similarity - a.similarity).slice(0, 5)\<close>\<close>
  "sims h =
     take 5 (js_sort (\<lambda>a b. similarity b - similarity a)
               (map (with_similarity h) (enumerate 0 pool)))"

definition mockScoreRequest ::
  "(real \<Rightarrow> jsstring) \<Rightarrow> regex_state \<Rightarrow> jsstring \<Rightarrow> options \<Rightarrow> score_response \<times> regex_state" where
  \<comment> \<open>the value the promise resolves to, with the state of the \<open>KEYMAP\<close> expressions
      after the call; the first argument is Number::toString, used by \<open>JSON.stringify\<close>\<close>
  "mockScoreRequest num st pitch opts =
     (let b = base pitch;
          h = hashScore (pitch @ JSON_stringify num opts)
      in case pickGenresFromText st pitch of
        (guessed, st') \<Rightarrow>
          (let gs = effective_genres opts guessed;
               ga = genreAdj gs;
               bud = budget pitch opts;
               peer = budgetPeer gs;
               bf = budgetFeasibility bud peer;
               orig = originality_val h gs;
               cl = clarity_val h;
               aud = audience h gs;
               pr = productionRisk h bf
           in (\<lparr>p_success = p_success_val b ga orig aud bf pr,
                radar = \<lparr>originality = orig, clarity = cl, audience_appeal = aud,
                         budget_feasibility = bf, production_risk = pr\<rparr>,
                drivers = drivers_val gs ga orig aud bf pr,
                nearest_movies = sims h,
                genreGuess = gs\<rparr>, st')))"

subsection \<open>handleSubmit: the options object\<close>

record form =
  pitch_field :: jsstring
  genres_field :: "genre list"
  tone_field :: jsstring
  rating_field :: jsstring
  budget_field :: jsstring


subsection \<open>Quantities the properties are stated with\<close>

definition match_count :: "jsstring list \<Rightarrow> jsstring \<Rightarrow> nat" where
  \<comment> \<open>the number of matches \<open>text.match(k)\<close> collects: the non-overlapping matches of the
      expression, found from left to right\<close>
  "match_count alts t = fst (match_loop alts t 0 0)"

definition aggregate_count :: "jsstring \<Rightarrow> genre \<Rightarrow> nat" where
  \<comment> \<open>the matches of a category, summed over the \<open>KEYMAP\<close> entries that name it\<close>
  "aggregate_count text g =
     sum_list (map (\<lambda>(k, g'). if g' = g then match_count k text else 0) KEYMAP)"

definition contains_word :: "jsstring \<Rightarrow> jsstring \<Rightarrow> bool" where
  \<comment> \<open>the text contains the word, upper and lower case letters taken as equal\<close>
  "contains_word w t = (\<exists>u x v. t = u @ x @ v \<and> map canonicalize x = map canonicalize w)"

definition nc17_options :: options where
  \<comment> \<open>the untouched form with the rating NC-17 selected\<close>
  "nc17_options = \<lparr>genres = [], tone = None, rating = str ''NC-17'', budget_hint_usd = None\<rparr>"

definition hint_25m_options :: options where
  \<comment> \<open>the untouched form with 25000000 entered as the budget\<close>
  "hint_25m_options = \<lparr>genres = [], tone = None, rating = str ''PG-13'', budget_hint_usd = Some 25000000\<rparr>"


text \<open>Names for the intermediate values of \<open>mockScoreRequest\<close>.\<close>

definition request_hash :: "(real \<Rightarrow> jsstring) \<Rightarrow> jsstring \<Rightarrow> options \<Rightarrow> 32 word" where
  "request_hash num pitch opts = hashScore (pitch @ JSON_stringify num opts)"

definition request_genres :: "jsstring \<Rightarrow> options \<Rightarrow> genre list" where
  "request_genres pitch opts = effective_genres opts (fst (pickGenresFromText (\<lambda>_. 0) pitch))"

definition request_feasibility :: "jsstring \<Rightarrow> options \<Rightarrow> real" where
  "request_feasibility pitch opts =
     budgetFeasibility (budget pitch opts) (budgetPeer (request_genres pitch opts))"

section \<open>Properties\<close>

subsection \<open>The tables with their code units written out\<close>

text \<open>
  The same tables as above, each word as the list of its code units. Evaluation of the
  model on a concrete text starts from these equations.
\<close>

lemma KEYMAP_units [code]:
  "KEYMAP =
    [([[115, 112, 97, 99, 101],
       [110, 97, 118, 101],
       [112, 108, 97, 110, 101, 116, 97],
       [114, 111, 98, 111, 116],
       [105, 97],
       [105, 110, 116, 101, 108, 105, 103, 101, 110, 99, 105, 97, 32, 97, 114, 116, 105, 102, 105, 99, 105, 97, 108],
       [102, 117, 116, 117, 114, 111],
       [97, 108, 105, 101, 110]], SciFi),
     ([[99, 114, 105, 109, 101, 110],
       [97, 115, 101, 115, 105, 110],
       [105, 110, 118, 101, 115, 116, 105, 103, 97, 99, 105],
       [109, 105, 115, 116, 101, 114, 105, 111],
       [99, 111, 110, 115, 112, 105, 114, 97, 99, 105],
       [112, 101, 114, 115, 101, 99, 117, 99, 105]], Thriller),
     ([[114, 105, 115, 97],
       [99, 104, 105, 115, 116, 101],
       [99, 111, 109, 101, 100, 105, 97],
       [104, 117, 109, 111, 114],
       [116, 111, 114, 112, 101],
       [115, 105, 116, 117, 97, 99, 105]], Comedia),
     ([[97, 109, 111, 114],
       [114, 101, 108, 97, 99, 105],
       [112, 97, 114, 101, 106, 97],
       [114, 111, 109, 97, 110, 99, 101],
       [99, 111, 114, 97, 122]], Romance),
     ([[109, 97, 103, 105, 97],
       [114, 101, 105, 110, 111],
       [104, 101, 99, 104, 105, 99],
       [100, 114, 97, 103],
       [102, 97, 110, 116, 97, 115]], Fantasia),
     ([[109, 105, 101, 100, 111],
       [102, 97, 110, 116, 97, 115, 109, 97],
       [100, 101, 109, 111, 110],
       [112, 111, 115, 101],
       [115, 108, 97, 115, 104, 101, 114],
       [116, 101, 114, 114, 111, 114]], Terror),
     ([[98, 97, 116, 97, 108, 108, 97],
       [103, 117, 101, 114, 114, 97],
       [114, 101, 98, 101, 108],
       [99, 111, 110, 102, 108, 105, 99, 116, 111],
       [109, 105, 115, 105, 243, 110],
       [97, 99, 99, 105, 243, 110]], Accion),
     ([[118, 105, 97, 106, 101],
       [98, 250, 115, 113, 117, 101, 100, 97],
       [116, 101, 115, 111, 114, 111],
       [97, 118, 101, 110, 116, 117, 114]], Aventura),
     ([[97, 110, 105, 109, 97, 99, 105],
       [100, 105, 98, 117, 106, 111],
       [115, 116, 111, 112, 32, 109, 111, 116, 105, 111, 110]], Animacion),
     ([[100, 114, 97, 109, 97],
       [102, 97, 109, 105, 108, 105, 97],
       [115, 117, 112, 101, 114, 97, 114],
       [101, 110, 102, 101, 114, 109, 101, 100, 97, 100],
       [100, 117, 101, 108, 111]], Drama)]"
  by (simp add: KEYMAP_def str_def)

lemma epic_words_units [code]:
  "epic_words =
     [[8, 115, 112, 97, 99, 101, 8], [8, 98, 97, 116, 97, 108, 108, 97, 8], [8, 100, 114, 97, 103, 8],
      [8, 101, 112, 105, 99, 8], [8, 103, 117, 101, 114, 114, 97, 8]]"
  by (simp add: epic_words_def str_def)

subsection \<open>Sorting\<close>
lemma insort_cmp_key:
  assumes "\<And>a b. (cmp a b \<le> 0) = (f a \<le> f b)"
  shows "insort_cmp cmp x xs = insort_key f x xs"
  by (induction xs) (simp_all add: assms)

lemma js_sort_key:
  assumes "\<And>a b. (cmp a b \<le> 0) = (f a \<le> f b)"
  shows "js_sort cmp xs = sort_key f xs"
proof -
  have "insort_cmp cmp = insort_key f"
    by (intro ext) (rule insort_cmp_key [OF assms])
  then show ?thesis by (simp add: js_sort_def sort_key_def)
qed

lemma insort_key_map:
  "insort_key k (f x) (map f xs) = map f (insort_key (\<lambda>y. k (f y)) x xs)"
  by (induction xs) simp_all

lemma sort_key_map:
  "sort_key k (map f xs) = map f (sort_key (\<lambda>y. k (f y)) xs)"
  by (induction xs) (simp_all add: insort_key_map)

lemma sorted_wrt_sort_key_desc:
  fixes f :: "'a \<Rightarrow> 'b::linordered_idom"
  shows "sorted_wrt (\<lambda>a b. f b \<le> f a) (sort_key (\<lambda>x. - f x) xs)"
proof -
  have "sorted (map (\<lambda>x. - f x) (sort_key (\<lambda>x. - f x) xs))"
    by (rule sorted_sort_key)
  then show ?thesis by (simp add: sorted_map)
qed


subsection \<open>The matching loop\<close>

lemma match_loop_lastIndex: "snd (match_loop alts t li n) = 0"
proof (induction alts t li n rule: match_loop.induct)
  case (1 alts t li n)
  show ?case
  proof (cases "regexp_exec alts t li")
    case (Pair r li')
    show ?thesis
    proof (cases r)
      case None
      with Pair have "li' = 0"
        by (auto simp: regexp_exec_def split: option.splits)
      with Pair None show ?thesis by (simp add: match_loop.simps [of alts t li n])
    next
      case (Some m)
      obtain i len where m: "m = (i, len)" by (cases m)
      from "1.IH" [OF Pair [symmetric] Some m [symmetric]]
      have "snd (match_loop alts t (if len = 0 then Suc li' else li') (Suc n)) = 0"
        by simp
      with Pair Some m show ?thesis by (simp add: match_loop.simps [of alts t li n])
    qed
  qed
qed

lemma match_loop_mono: "n \<le> fst (match_loop alts t li n)"
proof (induction alts t li n rule: match_loop.induct)
  case (1 alts t li n)
  show ?case
  proof (cases "regexp_exec alts t li")
    case (Pair r li')
    show ?thesis
    proof (cases r)
      case None
      with Pair show ?thesis by (simp add: match_loop.simps [of alts t li n])
    next
      case (Some m)
      obtain i len where m: "m = (i, len)" by (cases m)
      from "1.IH" [OF Pair [symmetric] Some m [symmetric]]
      have "Suc n \<le> fst (match_loop alts t (if len = 0 then Suc li' else li') (Suc n))"
        by simp
      with Pair Some m show ?thesis by (simp add: match_loop.simps [of alts t li n])
    qed
  qed
qed

lemma string_match_eq:
  "string_match alts t li = (if match_count alts t = 0 then None else Some (match_count alts t), 0)"
  using match_loop_lastIndex [of alts t 0 0]
  by (cases "match_loop alts t 0 0") (simp add: string_match_def match_count_def)

lemma match_count_0_iff: "match_count alts t = 0 \<longleftrightarrow> \<not> regexp_test alts t"
proof (cases "find_match alts t 0")
  case None
  then show ?thesis
    by (simp add: match_count_def regexp_test_def match_loop.simps [of alts t 0 0] regexp_exec_def)
next
  case (Some m)
  obtain i len where m: "m = (i, len)" by (cases m)
  have "Suc 0 \<le> fst (match_loop alts t (if len = 0 then Suc (i + len) else i + len) (Suc 0))"
    by (rule match_loop_mono)
  with Some m show ?thesis
    by (simp add: match_count_def regexp_test_def match_loop.simps [of alts t 0 0] regexp_exec_def)
qed

subsection \<open>The loop over KEYMAP\<close>

lemma map_set_fresh: "k \<notin> fst ` set m \<Longrightarrow> map_set m k v = m @ [(k, v)]"
  by (induction m) auto

lemma map_get_or0_fresh:
  assumes "k \<notin> fst ` set m"
  shows "map_get_or0 m k = 0"
proof -
  from assms have "map_of m k = None" by (simp add: map_of_eq_None_iff)
  then show ?thesis by (simp add: map_get_or0_def)
qed

lemma pick_loop_fst:
  "distinct (map snd km) \<Longrightarrow> snd ` set km \<inter> fst ` set ms = {} \<Longrightarrow>
   fst (pick_loop km text ms st) =
     ms @ map (\<lambda>(k, g). (g, match_count k text)) (filter (\<lambda>(k, g). 0 < match_count k text) km)"
proof (induction km arbitrary: ms st)
  case Nil
  then show ?case by simp
next
  case (Cons e km)
  obtain k g where e: "e = (k, g)" by (cases e)
  from Cons.prems e have fresh: "g \<notin> fst ` set ms" and dist: "distinct (map snd km)"
    and notin: "g \<notin> snd ` set km" and disj: "snd ` set km \<inter> fst ` set ms = {}"
    by auto
  show ?case
  proof (cases "match_count k text = 0")
    case True
    with Cons.IH [OF dist disj] e show ?thesis
      by (simp add: string_match_eq)
  next
    case False
    let ?ms = "ms @ [(g, match_count k text)]"
    from notin disj have "snd ` set km \<inter> fst ` set ?ms = {}" by auto
    from Cons.IH [OF dist this] False e fresh show ?thesis
      by (simp add: string_match_eq map_set_fresh map_get_or0_fresh)
  qed
qed

lemma pick_loop_snd:
  "snd (pick_loop km text ms st) = (\<lambda>g. if g \<in> snd ` set km then 0 else st g)"
proof (induction km arbitrary: ms st)
  case Nil
  then show ?case by simp
next
  case (Cons e km)
  obtain k g where e: "e = (k, g)" by (cases e)
  show ?case
    by (auto simp: e string_match_eq Cons.IH)
qed

lemma KEYMAP_distinct: "distinct (map snd KEYMAP)"
  by (simp add: KEYMAP_def)

lemma KEYMAP_categories: "map snd KEYMAP = [SciFi, Thriller, Comedia, Romance, Fantasia, Terror, Accion, Aventura, Animacion, Drama]"
  by (simp add: KEYMAP_def)

lemma KEYMAP_all: "g \<in> snd ` set KEYMAP"
proof -
  have "g \<in> set (map snd KEYMAP)"
    unfolding KEYMAP_categories by (cases g) simp_all
  then show ?thesis by simp
qed

lemma aggregate_single:
  assumes "distinct (map snd km)" and "(k, g) \<in> set km"
  shows "sum_list (map (\<lambda>(k', g'). if g' = g then match_count k' text else 0) km) = match_count k text"
  using assms
proof (induction km)
  case Nil
  then show ?case by simp
next
  case (Cons e km)
  obtain k' g' where e: "e = (k', g')" by (cases e)
  show ?case
  proof (cases "e = (k, g)")
    case True
    with Cons.prems have "g \<notin> snd ` set km" by auto
    then have "sum_list (map (\<lambda>(k', g'). if g' = g then match_count k' text else 0) km) = 0"
      by (induction km) auto
    with True show ?thesis by simp
  next
    case False
    with Cons.prems have in_km: "(k, g) \<in> set km" and dist: "distinct (map snd km)" by auto
    with Cons.prems e have "g' \<noteq> g" by force
    with Cons.IH [OF dist in_km] e show ?thesis by simp
  qed
qed

lemma aggregate_KEYMAP: "(k, g) \<in> set KEYMAP \<Longrightarrow> aggregate_count text g = match_count k text"
  unfolding aggregate_count_def by (rule aggregate_single [OF KEYMAP_distinct])

lemma pick_loop_KEYMAP:
  "fst (pick_loop KEYMAP text [] st) =
     map (\<lambda>g. (g, aggregate_count text g)) (filter (\<lambda>g. 0 < aggregate_count text g) (map snd KEYMAP))"
proof -
  have "fst (pick_loop KEYMAP text [] st) =
     map (\<lambda>(k, g). (g, match_count k text)) (filter (\<lambda>(k, g). 0 < match_count k text) KEYMAP)"
    using pick_loop_fst [OF KEYMAP_distinct, of "[]" "text" st] by simp
  also have "filter (\<lambda>(k, g). 0 < match_count k text) KEYMAP =
             filter (\<lambda>(k, g). 0 < aggregate_count text g) KEYMAP"
    by (rule filter_cong) (auto simp: aggregate_KEYMAP)
  also have "map (\<lambda>(k, g). (g, match_count k text)) \<dots> =
             map (\<lambda>(k, g). (g, aggregate_count text g)) \<dots>"
    by (rule map_cong) (auto simp: aggregate_KEYMAP)
  also have "\<dots> = map (\<lambda>g. (g, aggregate_count text g)) (filter (\<lambda>g. 0 < aggregate_count text g) (map snd KEYMAP))"
    by (simp add: filter_map comp_def case_prod_unfold)
  finally show ?thesis .
qed

lemma pickGenresFromText_eq:
  "pickGenresFromText st text =
     (sort_key (\<lambda>g. - int (aggregate_count text g))
        (filter (\<lambda>g. 0 < aggregate_count text g) (map snd KEYMAP)), \<lambda>_. 0)"
proof -
  have cmp: "js_sort (\<lambda>a b. int (snd b) - int (snd a)) xs = sort_key (\<lambda>a. - int (snd a)) xs"
    for xs :: "(genre \<times> nat) list"
    by (rule js_sort_key) auto
  obtain ms st' where p: "pick_loop KEYMAP text [] st = (ms, st')"
    by (cases "pick_loop KEYMAP text [] st")
  from p pick_loop_KEYMAP [of "text" st]
  have ms: "ms = map (\<lambda>g. (g, aggregate_count text g)) (filter (\<lambda>g. 0 < aggregate_count text g) (map snd KEYMAP))"
    by simp
  from p pick_loop_snd [of KEYMAP "text" "[]" st] have st': "st' = (\<lambda>_. 0)"
    by (simp add: KEYMAP_all)
  show ?thesis
    unfolding pickGenresFromText_def p
    by (simp add: cmp st' ms sort_key_map comp_def)
qed

subsection \<open>What the expressions match\<close>

lemma first_alt_None_iff: "first_alt alts t = None \<longleftrightarrow> (\<forall>w \<in> set alts. \<not> matches_at w t)"
  by (induction alts) auto

lemma find_match_None_iff:
  "find_match alts t i = None \<longleftrightarrow> (\<forall>j. i \<le> j \<and> j \<le> length t \<longrightarrow> first_alt alts (drop j t) = None)"
proof (induction alts t i rule: find_match.induct)
  case (1 alts t i)
  show ?case
  proof (cases "length t < i")
    case True
    then show ?thesis by (auto simp: find_match.simps [of alts t i])
  next
    case False
    show ?thesis
    proof (cases "first_alt alts (drop i t)")
      case None
      have "(\<forall>j. Suc i \<le> j \<and> j \<le> length t \<longrightarrow> first_alt alts (drop j t) = None) \<longleftrightarrow>
            (\<forall>j. i \<le> j \<and> j \<le> length t \<longrightarrow> first_alt alts (drop j t) = None)"
        using None by (metis Suc_leD le_antisym not_less_eq_eq)
      with "1.IH" [OF False None] False None show ?thesis
        by (simp add: find_match.simps [of alts t i])
    next
      case (Some n)
      with False show ?thesis
        by (auto simp: find_match.simps [of alts t i])
    qed
  qed
qed

lemma matches_at_iff:
  "matches_at w t \<longleftrightarrow> (\<exists>x v. t = x @ v \<and> map canonicalize x = map canonicalize w)"
proof (induction w t rule: matches_at.induct)
  case (1 t)
  then show ?case by simp
next
  case (2 p ps)
  then show ?case by simp
next
  case (3 p ps c cs)
  show ?case
  proof
    assume "matches_at (p # ps) (c # cs)"
    with 3 obtain x v where "cs = x @ v" "map canonicalize x = map canonicalize ps"
      and "canonicalize c = canonicalize p" by auto
    then have "c # cs = (c # x) @ v \<and> map canonicalize (c # x) = map canonicalize (p # ps)"
      by simp
    then show "\<exists>x v. c # cs = x @ v \<and> map canonicalize x = map canonicalize (p # ps)"
      by blast
  next
    assume "\<exists>x v. c # cs = x @ v \<and> map canonicalize x = map canonicalize (p # ps)"
    then obtain x v where xv: "c # cs = x @ v" "map canonicalize x = map canonicalize (p # ps)"
      by blast
    then obtain x' where x: "x = c # x'" by (cases x) auto
    with xv have "cs = x' @ v" "map canonicalize x' = map canonicalize ps"
      "canonicalize c = canonicalize p" by auto
    with 3 show "matches_at (p # ps) (c # cs)" by auto
  qed
qed

lemma regexp_test_iff: "regexp_test alts t \<longleftrightarrow> (\<exists>w \<in> set alts. contains_word w t)"
proof
  assume "regexp_test alts t"
  then obtain j w where j: "j \<le> length t" and w: "w \<in> set alts" and m: "matches_at w (drop j t)"
    by (auto simp: regexp_test_def find_match_None_iff first_alt_None_iff)
  from m obtain x v where "drop j t = x @ v" "map canonicalize x = map canonicalize w"
    by (auto simp: matches_at_iff)
  then have "t = take j t @ x @ v \<and> map canonicalize x = map canonicalize w"
    by (metis append_take_drop_id)
  then have "contains_word w t" unfolding contains_word_def by blast
  with w show "\<exists>w \<in> set alts. contains_word w t" by blast
next
  assume "\<exists>w \<in> set alts. contains_word w t"
  then obtain w u x v where w: "w \<in> set alts" and t: "t = u @ x @ v"
    and x: "map canonicalize x = map canonicalize w"
    by (auto simp: contains_word_def)
  from t x have "matches_at w (drop (length u) t)"
    by (auto simp: matches_at_iff)
  moreover from t have "length u \<le> length t" by simp
  ultimately show "regexp_test alts t"
    using w by (auto simp: regexp_test_def find_match_None_iff first_alt_None_iff)
qed

subsection \<open>Texts that differ in the case of letters\<close>

lemma matches_at_canon:
  "map canonicalize t = map canonicalize t' \<Longrightarrow> matches_at w t = matches_at w t'"
proof (induction w t arbitrary: t' rule: matches_at.induct)
  case (1 t)
  then show ?case by simp
next
  case (2 p ps)
  then show ?case by simp
next
  case (3 p ps c cs)
  from "3.prems" obtain c' cs' where t': "t' = c' # cs'"
    and c: "canonicalize c = canonicalize c'" and cs: "map canonicalize cs = map canonicalize cs'"
    by (cases t') auto
  from "3.IH" [OF cs] c show ?case by (simp add: t')
qed

lemma first_alt_canon:
  "map canonicalize t = map canonicalize t' \<Longrightarrow> first_alt alts t = first_alt alts t'"
  by (induction alts) (simp_all add: matches_at_canon [of t t'])

lemma find_match_canon:
  assumes "map canonicalize t = map canonicalize t'"
  shows "find_match alts t i = find_match alts t' i"
  using assms
proof (induction alts t i rule: find_match.induct)
  case (1 alts t i)
  from "1.prems" have len: "length t = length t'"
    by (rule map_eq_imp_length_eq)
  from "1.prems" have "drop i (map canonicalize t) = drop i (map canonicalize t')"
    by simp
  then have "map canonicalize (drop i t) = map canonicalize (drop i t')"
    by (simp only: drop_map)
  then have fa: "first_alt alts (drop i t) = first_alt alts (drop i t')"
    by (rule first_alt_canon)
  show ?case
  proof (cases "length t < i")
    case True
    with len show ?thesis
      by (simp add: find_match.simps [of alts t i] find_match.simps [of alts t' i])
  next
    case False
    show ?thesis
    proof (cases "first_alt alts (drop i t)")
      case None
      with fa have "first_alt alts (drop i t') = None" by simp
      with "1.IH" [OF False None "1.prems"] False None len show ?thesis
        by (simp add: find_match.simps [of alts t i] find_match.simps [of alts t' i])
    next
      case (Some n)
      with fa have "first_alt alts (drop i t') = Some n" by simp
      with Some False len show ?thesis
        by (simp add: find_match.simps [of alts t i] find_match.simps [of alts t' i])
    qed
  qed
qed

lemma match_loop_canon:
  assumes "map canonicalize t = map canonicalize t'"
  shows "match_loop alts t li n = match_loop alts t' li n"
  using assms
proof (induction alts t li n rule: match_loop.induct)
  case (1 alts t li n)
  have ex: "regexp_exec alts t' li = regexp_exec alts t li"
    by (simp add: regexp_exec_def find_match_canon [OF "1.prems"])
  show ?case
  proof (cases "regexp_exec alts t li")
    case (Pair r li')
    show ?thesis
    proof (cases r)
      case None
      with Pair ex show ?thesis
        by (simp add: match_loop.simps [of alts t li n] match_loop.simps [of alts t' li n])
    next
      case (Some m)
      obtain i len where m: "m = (i, len)" by (cases m)
      from "1.IH" [OF Pair [symmetric] Some m [symmetric] "1.prems"] Pair Some m ex
      show ?thesis
        by (simp add: match_loop.simps [of alts t li n] match_loop.simps [of alts t' li n])
    qed
  qed
qed

lemma aggregate_count_canon:
  assumes "map canonicalize t = map canonicalize t'"
  shows "aggregate_count t g = aggregate_count t' g"
proof -
  have "match_count k t = match_count k t'" for k
    by (simp add: match_count_def match_loop_canon [OF assms])
  then have "(\<lambda>(k, g'). if g' = g then match_count k t else 0) =
             (\<lambda>(k, g'). if g' = g then match_count k t' else 0)"
    by (simp add: fun_eq_iff)
  then show ?thesis by (simp only: aggregate_count_def)
qed

lemma match_count_Nil: "[] \<notin> set alts \<Longrightarrow> match_count alts [] = 0"
proof -
  assume "[] \<notin> set alts"
  then have "\<forall>w \<in> set alts. \<not> matches_at w []"
    by (metis matches_at.simps(2) neq_Nil_conv)
  then show ?thesis
    by (simp add: match_count_0_iff regexp_test_def find_match_None_iff first_alt_None_iff)
qed

lemma KEYMAP_nonempty_words: "(k, g) \<in> set KEYMAP \<Longrightarrow> [] \<notin> set k"
  by (auto simp: KEYMAP_def str_def)

lemma aggregate_count_Nil: "aggregate_count [] g = 0"
proof -
  from KEYMAP_all [of g] obtain k where k: "(k, g) \<in> set KEYMAP" by force
  then show ?thesis
    by (simp add: aggregate_KEYMAP [OF k] match_count_Nil [OF KEYMAP_nonempty_words [OF k]])
qed

lemma aggregate_count_0_iff:
  "aggregate_count text g = 0 \<longleftrightarrow> (\<forall>k. (k, g) \<in> set KEYMAP \<longrightarrow> \<not> regexp_test k text)"
proof -
  from KEYMAP_all [of g] obtain k where k: "(k, g) \<in> set KEYMAP" by force
  show ?thesis
  proof
    assume z: "aggregate_count text g = 0"
    show "\<forall>k. (k, g) \<in> set KEYMAP \<longrightarrow> \<not> regexp_test k text"
    proof (intro allI impI)
      fix k' assume "(k', g) \<in> set KEYMAP"
      from aggregate_KEYMAP [OF this, of "text"] z show "\<not> regexp_test k' text"
        by (simp add: match_count_0_iff)
    qed
  next
    assume "\<forall>k. (k, g) \<in> set KEYMAP \<longrightarrow> \<not> regexp_test k text"
    with k have "\<not> regexp_test k text" by blast
    then show "aggregate_count text g = 0"
      by (simp add: aggregate_KEYMAP [OF k] match_count_0_iff)
  qed
qed

section \<open>Category inference\<close>

text \<open>
  Claim C7. For every text, \<open>pickGenresFromText\<close> returns the categories in the order of
  descending aggregate match count, leaves out the categories without a match, puts
  categories of equal count in the order of the keyword table, and returns the empty
  list for the empty text and for a text that matches no keyword. (Every category is
  named by exactly one entry of \<open>KEYMAP\<close>, so each aggregate has one summand.)
\<close>

theorem category_inference_order:
  "sorted_wrt (\<lambda>a b. aggregate_count t b \<le> aggregate_count t a)
     (fst (pickGenresFromText st t))
   \<and> distinct (fst (pickGenresFromText st t))
   \<and> set (fst (pickGenresFromText st t)) = {g. 0 < aggregate_count t g}
   \<and> (\<forall>n. filter (\<lambda>g. aggregate_count t g = n) (fst (pickGenresFromText st t)) =
           filter (\<lambda>g. aggregate_count t g = n \<and> 0 < n) (map snd KEYMAP))
   \<and> (t = [] \<longrightarrow> fst (pickGenresFromText st t) = [])
   \<and> ((\<forall>(k, g) \<in> set KEYMAP. \<not> regexp_test k t) \<longrightarrow> fst (pickGenresFromText st t) = [])"
proof -
  let ?agg = "aggregate_count t"
  let ?cands = "filter (\<lambda>g. 0 < ?agg g) (map snd KEYMAP)"
  let ?r = "fst (pickGenresFromText st t)"
  have r: "?r = sort_key (\<lambda>g. - int (?agg g)) ?cands"
    by (simp add: pickGenresFromText_eq)
  have "sorted_wrt (\<lambda>a b. int (?agg b) \<le> int (?agg a)) ?r"
    unfolding r by (rule sorted_wrt_sort_key_desc)
  then have c1: "sorted_wrt (\<lambda>a b. ?agg b \<le> ?agg a) ?r" by simp
  have c2: "distinct ?r"
    unfolding r using KEYMAP_distinct by simp
  have c3: "set ?r = {g. 0 < ?agg g}"
    unfolding r using KEYMAP_all by auto
  have c4: "filter (\<lambda>g. ?agg g = n) ?r = filter (\<lambda>g. ?agg g = n \<and> 0 < n) (map snd KEYMAP)" for n
  proof -
    have "filter (\<lambda>g. ?agg g = n) ?r = filter (\<lambda>g. - int (?agg g) = - int n) ?r"
      by simp
    also have "\<dots> = filter (\<lambda>g. - int (?agg g) = - int n) ?cands"
      unfolding r by (rule sort_key_stable)
    also have "\<dots> = filter (\<lambda>g. ?agg g = n \<and> 0 < n) (map snd KEYMAP)"
      by (auto intro: filter_cong)
    finally show ?thesis .
  qed
  have c5: "?r = []" if "t = []"
    unfolding r using that by (simp add: aggregate_count_Nil)
  have c6: "?r = []" if "\<forall>(k, g) \<in> set KEYMAP. \<not> regexp_test k t"
  proof -
    from that have "?agg g = 0" for g
      by (auto simp: aggregate_count_0_iff)
    then show ?thesis unfolding r by simp
  qed
  show ?thesis by (intro conjI allI impI c1 c2 c3 c4 c5 c6)
qed

theorem category_inference_order_witness:
  "fst (pickGenresFromText (\<lambda>_. 0) []) = []
   \<and> fst (pickGenresFromText (\<lambda>_. 0) (str ''amor amor guerra risa'')) = [Romance, Comedia, Accion]
   \<and> sorted_wrt (\<lambda>a b. aggregate_count (str ''amor amor guerra risa'') b
                        \<le> aggregate_count (str ''amor amor guerra risa'') a)
       (fst (pickGenresFromText (\<lambda>_. 0) (str ''amor amor guerra risa'')))"
proof -
  have a: "fst (pickGenresFromText (\<lambda>_. 0) []) = []"
    using category_inference_order [of "[]" "\<lambda>_. 0"] by simp
  have b: "fst (pickGenresFromText (\<lambda>_. 0) (str ''amor amor guerra risa'')) = [Romance, Comedia, Accion]"
    by code_simp
  have c: "sorted_wrt (\<lambda>a b. aggregate_count (str ''amor amor guerra risa'') b
                        \<le> aggregate_count (str ''amor amor guerra risa'') a)
       (fst (pickGenresFromText (\<lambda>_. 0) (str ''amor amor guerra risa'')))"
    using category_inference_order [of "str ''amor amor guerra risa''" "\<lambda>_. 0"] by blast
  show ?thesis by (intro conjI a b c)
qed


text \<open>
  Claim C9, amended. Keyword matching is insensitive to the case of the ASCII and
  Latin-1 letters: two texts whose code units agree after upper-casing
  (\<open>canonicalize\<close>) yield the same category sequence, whatever the state of the
  expressions. Nothing is claimed about accents.
\<close>

theorem matching_ignores_case:
  "map canonicalize t = map canonicalize t' \<Longrightarrow>
   fst (pickGenresFromText st t) = fst (pickGenresFromText st' t')"
proof -
  assume "map canonicalize t = map canonicalize t'"
  then have "aggregate_count t = aggregate_count t'"
    by (intro ext) (rule aggregate_count_canon)
  then show ?thesis by (simp add: pickGenresFromText_eq)
qed

theorem matching_ignores_case_witness:
  "map canonicalize (str ''RISA y Acci'' @ [0xD3] @ str ''N'') = map canonicalize (str ''risa y acci'' @ [0xF3] @ str ''n'')
   \<and> fst (pickGenresFromText (\<lambda>_. 0) (str ''RISA y Acci'' @ [0xD3] @ str ''N''))
     = fst (pickGenresFromText (\<lambda>_. 0) (str ''risa y acci'' @ [0xF3] @ str ''n''))"
proof -
  have h: "map canonicalize (str ''RISA y Acci'' @ [0xD3] @ str ''N'') = map canonicalize (str ''risa y acci'' @ [0xF3] @ str ''n'')"
    by code_simp
  show ?thesis using h matching_ignores_case [OF h] by simp
qed

text \<open>
  The claim as stated fails: the word spelled with the accent is found, the same word
  without the accent is not.
\<close>

theorem accent_counterexample:
  "fst (pickGenresFromText (\<lambda>_. 0) (str ''misi'' @ [0xF3] @ str ''n'')) = [Accion]
   \<and> fst (pickGenresFromText (\<lambda>_. 0) (str ''mision'')) = []"
  by code_simp

section \<open>The default budget\<close>

lemma budget_without_hint:
  "budget_hint_usd opts = None \<Longrightarrow>
   budget pitch opts = (if \<exists>w \<in> set epic_words. contains_word w pitch then 40000000 else 8000000)"
  by (simp add: budget_def regexp_test_iff)

text \<open>
  Claim C8 says that without \<open>budget_hint_usd\<close> a text containing a trigger word such as
  guerra resolves to a budget of 40,000,000. The code does not do that. The regular
  expression literal of line 85 holds a raw backspace character (U+0008) before and
  after the group, where the word boundary \<^verbatim>\<open>\b\<close> was meant; the expression
  therefore finds a trigger word only between two backspace characters, and the text
  "una guerra" resolves to 8,000,000.
\<close>

theorem trigger_word_not_recognised:
  "budget (str ''una guerra'') default_options = 8000000
   \<and> budget (str ''una '' @ [0x08] @ str ''guerra'' @ [0x08]) default_options = 40000000"
  by code_simp

section \<open>Determinism\<close>

lemma mockScoreRequest_any_state:
  "mockScoreRequest num st pitch opts = mockScoreRequest num (\<lambda>_. 0) pitch opts"
  by (simp only: mockScoreRequest_def pickGenresFromText_eq)

lemma mockScoreRequest_final_state:
  "snd (mockScoreRequest num st pitch opts) = (\<lambda>_. 0)"
  by (simp only: mockScoreRequest_def pickGenresFromText_eq Let_def prod.case snd_conv)

text \<open>
  Claim C2. The value returned by \<open>mockScoreRequest\<close> depends on the text and the
  options only: the only mutable state the engine touches is the \<open>lastIndex\<close> of the
  \<open>KEYMAP\<close> expressions, the result is the same for every such state, and a second
  call in the state the first call left returns the same response again.
\<close>

theorem response_independent_of_state:
  "mockScoreRequest num st pitch opts = mockScoreRequest num st' pitch opts
   \<and> mockScoreRequest num (snd (mockScoreRequest num st pitch opts)) pitch opts
       = mockScoreRequest num st pitch opts"
proof
  show "mockScoreRequest num st pitch opts = mockScoreRequest num st' pitch opts"
    by (simp only: mockScoreRequest_any_state [of num st] mockScoreRequest_any_state [of num st'])
  show "mockScoreRequest num (snd (mockScoreRequest num st pitch opts)) pitch opts
       = mockScoreRequest num st pitch opts"
    by (simp only: mockScoreRequest_any_state [of num st]
          mockScoreRequest_any_state [of num "snd (mockScoreRequest num (\<lambda>_. 0) pitch opts)"])
qed

section \<open>The nearest items\<close>

lemma mock_unfold:
  "fst (mockScoreRequest num st pitch opts) =
    \<lparr>p_success = p_success_val (base pitch) (genreAdj (request_genres pitch opts))
        (originality_val (request_hash num pitch opts) (request_genres pitch opts))
        (audience (request_hash num pitch opts) (request_genres pitch opts))
        (request_feasibility pitch opts)
        (productionRisk (request_hash num pitch opts) (request_feasibility pitch opts)),
     radar = \<lparr>originality = originality_val (request_hash num pitch opts) (request_genres pitch opts),
              clarity = clarity_val (request_hash num pitch opts),
              audience_appeal = audience (request_hash num pitch opts) (request_genres pitch opts),
              budget_feasibility = request_feasibility pitch opts,
              production_risk = productionRisk (request_hash num pitch opts) (request_feasibility pitch opts)\<rparr>,
     drivers = drivers_val (request_genres pitch opts) (genreAdj (request_genres pitch opts))
        (originality_val (request_hash num pitch opts) (request_genres pitch opts))
        (audience (request_hash num pitch opts) (request_genres pitch opts))
        (request_feasibility pitch opts)
        (productionRisk (request_hash num pitch opts) (request_feasibility pitch opts)),
     nearest_movies = sims (request_hash num pitch opts),
     genreGuess = request_genres pitch opts\<rparr>"
  unfolding mockScoreRequest_any_state [of num st]
  by (simp add: mockScoreRequest_def Let_def request_hash_def request_genres_def
        request_feasibility_def split: prod.split)

lemma mock_nearest: "nearest_movies (fst (mockScoreRequest num st pitch opts)) = sims (request_hash num pitch opts)"
  by (simp add: mock_unfold)

lemma originality_val_int [code]:
  "originality_val h gs =
     max 0 (min 1 (fl (fl (fl (real_of_int (uint h mod 100) / 100) * fl 0.6)
                       + (if 2 \<le> length (remdups gs) then fl 0.2 else fl 0.05))))"
proof -
  have "int (unat h mod 100) = uint h mod 100"
    by (simp only: zmod_int of_nat_numeral) simp
  then have "real_of_int (uint h mod 100) = real_of_int (int (unat h mod 100))"
    by (simp only:)
  then have a: "real (unat h mod 100) = real_of_int (uint h mod 100)"
    by simp
  have b: "card (set gs) = length (remdups gs)"
    by (simp only: length_remdups_card_conv)
  show ?thesis unfolding originality_val_def a b ..
qed

lemma mock_drivers:
  "drivers (fst (mockScoreRequest num st pitch opts)) =
     drivers_val (request_genres pitch opts) (genreAdj (request_genres pitch opts))
        (originality_val (request_hash num pitch opts) (request_genres pitch opts))
        (audience (request_hash num pitch opts) (request_genres pitch opts))
        (request_feasibility pitch opts)
        (productionRisk (request_hash num pitch opts) (request_feasibility pitch opts))"
  by (simp add: mock_unfold)

lemma mock_radar:
  "radar (fst (mockScoreRequest num st pitch opts)) =
     \<lparr>originality = originality_val (request_hash num pitch opts) (request_genres pitch opts),
      clarity = clarity_val (request_hash num pitch opts),
      audience_appeal = audience (request_hash num pitch opts) (request_genres pitch opts),
      budget_feasibility = request_feasibility pitch opts,
      production_risk = productionRisk (request_hash num pitch opts) (request_feasibility pitch opts)\<rparr>"
  by (simp add: mock_unfold)

lemma mock_genreGuess:
  "genreGuess (fst (mockScoreRequest num st pitch opts)) = request_genres pitch opts"
  by (simp add: mock_unfold)

lemma mock_p_success:
  "p_success (fst (mockScoreRequest num st pitch opts)) =
     p_success_val (base pitch) (genreAdj (request_genres pitch opts))
        (originality_val (request_hash num pitch opts) (request_genres pitch opts))
        (audience (request_hash num pitch opts) (request_genres pitch opts))
        (request_feasibility pitch opts)
        (productionRisk (request_hash num pitch opts) (request_feasibility pitch opts))"
  by (simp add: mock_unfold)

lemma truncate_with_similarity: "movie.truncate (with_similarity h (i, m)) = m"
  by (simp add: with_similarity_def movie.truncate_def)

lemma length_pool: "length pool = 10"
  by (simp add: pool_def)

lemma sims_sort:
  "sims h = take 5 (sort_key (\<lambda>m. - similarity m) (map (with_similarity h) (enumerate 0 pool)))"
proof -
  have "js_sort (\<lambda>a b. similarity b - similarity a) xs = sort_key (\<lambda>m. - similarity m) xs"
    for xs :: "scored_movie list"
    by (rule js_sort_key) auto
  then show ?thesis by (simp add: sims_def)
qed

lemma truncate_scored_pool:
  "map movie.truncate (map (with_similarity h) (enumerate 0 pool)) = pool"
proof -
  have "movie.truncate \<circ> with_similarity h = snd"
    by (auto simp: fun_eq_iff truncate_with_similarity)
  then show ?thesis by (simp only: map_map map_snd_enumerate)
qed

lemma take_sort_desc_sorted:
  fixes f :: "'a \<Rightarrow> real"
  shows "sorted_wrt (\<lambda>a b. f b \<le> f a) (take n (sort_key (\<lambda>m. - f m) xs))"
  by (rule sorted_wrt_take) (rule sorted_wrt_sort_key_desc)

lemma take_sort_set:
  "m \<in> set (take n (sort_key k xs)) \<Longrightarrow> m \<in> set xs"
proof -
  assume "m \<in> set (take n (sort_key k xs))"
  then have "m \<in> set (sort_key k xs)" by (rule in_set_takeD)
  then show ?thesis by (simp only: set_sort)
qed

lemma take_sort_desc_stable:
  fixes f :: "'a \<Rightarrow> real"
  shows "subseq (filter (\<lambda>m. f m = s) (take n (sort_key (\<lambda>m. - f m) xs))) xs"
proof -
  let ?ys = "sort_key (\<lambda>m. - f m) xs"
  have "subseq (take n ?ys) ?ys"
    by (rule prefix_imp_subseq) (rule take_is_prefix)
  then have a: "subseq (filter (\<lambda>m. f m = s) (take n ?ys)) (filter (\<lambda>m. f m = s) ?ys)"
    by (rule subseq_filter)
  have "(\<lambda>m. f m = s) = (\<lambda>m. - f m = - s)" by (simp add: fun_eq_iff)
  then have "filter (\<lambda>m. f m = s) ?ys = filter (\<lambda>m. - f m = - s) ?ys"
    by (simp only:)
  also have "\<dots> = filter (\<lambda>m. - f m = - s) xs"
    by (rule sort_key_stable)
  finally have b: "filter (\<lambda>m. f m = s) ?ys = filter (\<lambda>m. - f m = - s) xs" .
  have c: "subseq (filter (\<lambda>m. - f m = - s) xs) xs"
    by (rule subseq_filter_left)
  from a have "subseq (filter (\<lambda>m. f m = s) (take n ?ys)) (filter (\<lambda>m. - f m = - s) xs)"
    by (simp only: b)
  from this c show ?thesis by (rule subseq_order.order_trans)
qed

text \<open>
  Claim C5. For every request \<open>nearest_movies\<close> has exactly five entries; each is an
  entry of the pool with its title, year and return multiple unchanged; the entries are
  in non-increasing order of similarity; and entries of equal similarity stand in the
  order they have in the pool.
\<close>

theorem nearest_items:
  "length (nearest_movies (fst (mockScoreRequest num st pitch opts))) = 5
   \<and> list_all (\<lambda>m. movie.truncate m \<in> set pool) (nearest_movies (fst (mockScoreRequest num st pitch opts)))
   \<and> sorted_wrt (\<lambda>a b. similarity b \<le> similarity a)
         (nearest_movies (fst (mockScoreRequest num st pitch opts)))
   \<and> (\<forall>s. subseq (map movie.truncate
                  (filter (\<lambda>m. similarity m = s) (nearest_movies (fst (mockScoreRequest num st pitch opts)))))
               pool)"
proof -
  define h where "h = request_hash num pitch opts"
  define xs where "xs = map (with_similarity h) (enumerate 0 pool)"
  define ys where "ys = take 5 (sort_key (\<lambda>m. - similarity m) xs)"
  have n: "nearest_movies (fst (mockScoreRequest num st pitch opts)) = ys"
    by (simp only: mock_nearest sims_sort ys_def xs_def h_def)
  have tr: "map movie.truncate xs = pool"
    unfolding xs_def by (rule truncate_scored_pool)
  have "length xs = 10"
    unfolding xs_def by (simp add: length_pool)
  then have c1: "length ys = 5"
    unfolding ys_def by simp
  have c2: "list_all (\<lambda>m. movie.truncate m \<in> set pool) ys"
    unfolding list_all_iff
  proof
    fix m assume "m \<in> set ys"
    then have "m \<in> set xs" unfolding ys_def by (rule take_sort_set)
    then have "movie.truncate m \<in> set (map movie.truncate xs)" by simp
    then show "movie.truncate m \<in> set pool" by (simp only: tr)
  qed
  have c3: "sorted_wrt (\<lambda>a b. similarity b \<le> similarity a) ys"
    unfolding ys_def by (rule take_sort_desc_sorted)
  have c4: "subseq (map movie.truncate (filter (\<lambda>m. similarity m = s) ys)) pool" for s
  proof -
    have "subseq (filter (\<lambda>m. similarity m = s) ys) xs"
      unfolding ys_def by (rule take_sort_desc_stable)
    then have "subseq (map movie.truncate (filter (\<lambda>m. similarity m = s) ys)) (map movie.truncate xs)"
      by (rule subseq_map)
    then show ?thesis by (simp only: tr)
  qed
  show ?thesis unfolding n by (intro conjI allI c1 c2 c3 c4)
qed

theorem nearest_items_witness:
  "length (nearest_movies (fst (mockScoreRequest whole_number_text (\<lambda>_. 0) [] nc17_options))) = 5
   \<and> list_all (\<lambda>m. movie.truncate m \<in> set pool)
        (nearest_movies (fst (mockScoreRequest whole_number_text (\<lambda>_. 0) [] nc17_options)))
   \<and> map similarity (nearest_movies (fst (mockScoreRequest whole_number_text (\<lambda>_. 0) [] nc17_options)))
       = [0.88, 0.82, 0.82, 0.78, 0.74]
   \<and> map title (nearest_movies (fst (mockScoreRequest whole_number_text (\<lambda>_. 0) [] nc17_options)))
       = [str ''Annihilation'', str ''Ex Machina'', str ''Mad Max: Fury Road'', str ''Parasite'',
          str ''Get Out'']"
proof -
  have a: "map similarity (nearest_movies (fst (mockScoreRequest whole_number_text (\<lambda>_. 0) [] nc17_options)))
       = [0.88, 0.82, 0.82, 0.78, 0.74]"
    unfolding mock_nearest by code_simp
  have b: "map title (nearest_movies (fst (mockScoreRequest whole_number_text (\<lambda>_. 0) [] nc17_options)))
       = [str ''Annihilation'', str ''Ex Machina'', str ''Mad Max: Fury Road'', str ''Parasite'',
          str ''Get Out'']"
    unfolding mock_nearest by code_simp
  from nearest_items [of whole_number_text "\<lambda>_. 0" "[]" nc17_options] a b
  show ?thesis by blast
qed

section \<open>The drivers\<close>

lemma toFixed_error: "\<bar>toFixed d x - x\<bar> \<le> 1 / (2 * 10 ^ d)"
proof -
  define y where "y = \<bar>x\<bar> * 10 ^ d"
  define n where "n = \<lfloor>y + 1 / 2\<rfloor>"
  have p: "(0::real) < 10 ^ d" by simp
  have "real_of_int n \<le> y + 1 / 2" and "y + 1 / 2 < real_of_int n + 1"
    unfolding n_def by linarith+
  then have "\<bar>real_of_int n - y\<bar> \<le> 1 / 2" by linarith
  then have "\<bar>real_of_int n - y\<bar> / 10 ^ d \<le> (1 / 2) / 10 ^ d"
    using p by (intro divide_right_mono) simp_all
  moreover have "real_of_int n / 10 ^ d - \<bar>x\<bar> = (real_of_int n - y) / 10 ^ d"
    by (simp add: y_def diff_divide_distrib)
  then have "\<bar>real_of_int n - y\<bar> / 10 ^ d = \<bar>real_of_int n / 10 ^ d - \<bar>x\<bar>\<bar>"
    by simp
  moreover have "(1 / 2) / 10 ^ d = 1 / (2 * (10::real) ^ d)" by simp
  ultimately have e: "\<bar>real_of_int n / 10 ^ d - \<bar>x\<bar>\<bar> \<le> 1 / (2 * 10 ^ d)" by (simp only:)
  have "toFixed d x - x = sgn x * (real_of_int n / 10 ^ d - \<bar>x\<bar>)"
    by (simp add: toFixed_def n_def y_def algebra_simps sgn_real_def abs_real_def)
  then have "\<bar>toFixed d x - x\<bar> = \<bar>sgn x\<bar> * \<bar>real_of_int n / 10 ^ d - \<bar>x\<bar>\<bar>"
    by (simp add: abs_mult)
  also have "\<dots> \<le> \<bar>real_of_int n / 10 ^ d - \<bar>x\<bar>\<bar>"
    by (simp add: sgn_real_def)
  finally show ?thesis using e by linarith
qed

lemma js_sort_mset: "mset (js_sort cmp xs) = mset xs"
proof -
  have "mset (insort_cmp cmp x xs) = add_mset x (mset xs)" for x xs
    by (induction xs) simp_all
  then show ?thesis
    unfolding js_sort_def by (induction xs) simp_all
qed

lemma drivers_val_sorted:
  "sorted_wrt (\<lambda>a b. \<bar>impact b\<bar> \<le> \<bar>impact a\<bar>) (drivers_val gs ga orig aud bf pr)"
proof -
  have "js_sort (\<lambda>a b. \<bar>impact b\<bar> - \<bar>impact a\<bar>) xs = sort_key (\<lambda>d. - \<bar>impact d\<bar>) xs"
    for xs :: "driver list"
    by (rule js_sort_key) auto
  then show ?thesis
    unfolding drivers_val_def by (simp only: sorted_wrt_sort_key_desc)
qed

text \<open>
  Claim C6, amended. For every request \<open>drivers\<close> has exactly five entries: one labelled
  with the effective genres joined by \<open>+\<close>, and the four labelled originality\_index,
  audience\_appeal, budget\_vs\_peers and production\_risk. Their impacts are the weighted
  terms of the \<open>p_success\<close> formula, each rounded to three decimals by \<open>toFixed(3)\<close>
  (the decimal within 0.0005 of the term, read back as a double), the production-risk
  one negated; the entries are in non-increasing order of absolute impact.
\<close>

theorem drivers_rounded_terms:
  "mset (drivers (fst (mockScoreRequest num st pitch opts))) =
     mset [\<lparr>feature = join (str ''+'') (map label (genreGuess (fst (mockScoreRequest num st pitch opts)))),
            impact = fl (toFixed 3 (genreAdj (genreGuess (fst (mockScoreRequest num st pitch opts)))))\<rparr>,
           \<lparr>feature = str ''originality_index'',
            impact = fl (toFixed 3 (weighted (originality (radar (fst (mockScoreRequest num st pitch opts)))) 0.15))\<rparr>,
           \<lparr>feature = str ''audience_appeal'',
            impact = fl (toFixed 3 (weighted (audience_appeal (radar (fst (mockScoreRequest num st pitch opts)))) 0.12))\<rparr>,
           \<lparr>feature = str ''budget_vs_peers'',
            impact = fl (toFixed 3 (weighted (budget_feasibility (radar (fst (mockScoreRequest num st pitch opts)))) 0.18))\<rparr>,
           \<lparr>feature = str ''production_risk'',
            impact = - fl (toFixed 3 (weighted (production_risk (radar (fst (mockScoreRequest num st pitch opts)))) 0.15))\<rparr>]
   \<and> length (drivers (fst (mockScoreRequest num st pitch opts))) = 5
   \<and> sorted_wrt (\<lambda>a b. \<bar>impact b\<bar> \<le> \<bar>impact a\<bar>) (drivers (fst (mockScoreRequest num st pitch opts)))
   \<and> p_success (fst (mockScoreRequest num st pitch opts)) =
       max (fl 0.05) (min (fl 0.95)
         (fl (fl (fl (fl (fl (base pitch + genreAdj (genreGuess (fst (mockScoreRequest num st pitch opts))))
                          + weighted (originality (radar (fst (mockScoreRequest num st pitch opts)))) 0.15)
                      + weighted (audience_appeal (radar (fst (mockScoreRequest num st pitch opts)))) 0.12)
                  + weighted (budget_feasibility (radar (fst (mockScoreRequest num st pitch opts)))) 0.18)
              - weighted (production_risk (radar (fst (mockScoreRequest num st pitch opts)))) 0.15)))
   \<and> (\<forall>x. \<bar>toFixed 3 x - x\<bar> \<le> 0.0005)"
proof -
  have m: "mset (drivers_val gs ga orig aud bf pr) = mset (drivers_unsorted gs ga orig aud bf pr)"
    for gs ga orig aud bf pr
    unfolding drivers_val_def by (rule js_sort_mset)
  have l: "length (drivers_val gs ga orig aud bf pr) = 5" for gs ga orig aud bf pr
  proof -
    have "size (mset (drivers_val gs ga orig aud bf pr)) = 5"
      unfolding m by (simp add: drivers_unsorted_def)
    then show ?thesis by simp
  qed
  have t: "\<bar>toFixed 3 x - x\<bar> \<le> 0.0005" for x
    using toFixed_error [of 3 x] by simp
  have t': "\<forall>x. \<bar>toFixed 3 x - x\<bar> \<le> 0.0005"
    using t by blast
  show ?thesis
    unfolding mock_drivers mock_radar mock_genreGuess mock_p_success radar_profile.simps
    by (intro conjI t' l drivers_val_sorted) (simp_all only: m drivers_unsorted_def p_success_val_def)
qed

theorem drivers_rounded_terms_witness:
  "length (drivers (fst (mockScoreRequest whole_number_text (\<lambda>_. 0) [] default_options))) = 5
   \<and> sorted_wrt (\<lambda>a b. \<bar>impact b\<bar> \<le> \<bar>impact a\<bar>) (drivers (fst (mockScoreRequest whole_number_text (\<lambda>_. 0) [] default_options)))
   \<and> drivers (fst (mockScoreRequest whole_number_text (\<lambda>_. 0) [] default_options)) =
       [\<lparr>feature = str ''budget_vs_peers'', impact = fl 0.09\<rparr>,
        \<lparr>feature = str ''audience_appeal'', impact = - fl 0.023\<rparr>,
        \<lparr>feature = str ''production_risk'', impact = fl 0.019\<rparr>,
        \<lparr>feature = str ''Drama'', impact = - fl 0.01\<rparr>,
        \<lparr>feature = str ''originality_index'', impact = fl 0.002\<rparr>]"
proof -
  have a: "drivers (fst (mockScoreRequest whole_number_text (\<lambda>_. 0) [] default_options)) =
       [\<lparr>feature = str ''budget_vs_peers'', impact = fl 0.09\<rparr>,
        \<lparr>feature = str ''audience_appeal'', impact = - fl 0.023\<rparr>,
        \<lparr>feature = str ''production_risk'', impact = fl 0.019\<rparr>,
        \<lparr>feature = str ''Drama'', impact = - fl 0.01\<rparr>,
        \<lparr>feature = str ''originality_index'', impact = fl 0.002\<rparr>]"
    unfolding mock_drivers by code_simp
  note t = drivers_rounded_terms [of whole_number_text "\<lambda>_. 0" "[]" default_options]
  note l = t [THEN conjunct2, THEN conjunct1]
  note s = t [THEN conjunct2, THEN conjunct2, THEN conjunct1]
  show ?thesis by (intro conjI l s a)
qed

text \<open>
  The claim as stated fails: the impacts are not the weighted terms themselves. For the
  empty text and the rating NC-17 the audience term is 0.0048 (up to the rounding of
  the double operations) and no driver has that impact; the audience driver has 0.005.
\<close>

theorem drivers_unrounded_counterexample:
  "map impact (drivers (fst (mockScoreRequest whole_number_text (\<lambda>_. 0) [] nc17_options))) = [fl 0.09, fl 0.048, - fl 0.018, - fl 0.01, fl 0.005]
   \<and> \<bar>weighted (audience_appeal (radar (fst (mockScoreRequest whole_number_text (\<lambda>_. 0) [] nc17_options)))) 0.12 - 0.0048\<bar> < 1 / 10 ^ 15"
  unfolding mock_drivers mock_radar radar_profile.simps by code_simp

section \<open>Numeric bounds\<close>

subsection \<open>Remainders, shifts and rounding\<close>

lemma js_rem_bound: "b \<noteq> 0 \<Longrightarrow> \<bar>js_rem a b\<bar> < \<bar>b\<bar>"
proof -
  assume "b \<noteq> 0"
  then have "\<bar>a\<bar> mod \<bar>b\<bar> < \<bar>b\<bar>" and "0 \<le> \<bar>a\<bar> mod \<bar>b\<bar>" by simp_all
  with \<open>b \<noteq> 0\<close> show ?thesis
    by (simp add: js_rem_def abs_mult sgn_if)
qed

lemma js_rem_nonneg: "0 \<le> a \<Longrightarrow> 0 \<le> js_rem a b"
  by (cases "b = 0") (simp_all add: js_rem_def sgn_if)

lemma sar_nonneg: "0 \<le> sint h \<Longrightarrow> 0 \<le> sar h k"
  by (simp add: sar_def sint_signed_drop_bit_eq drop_bit_eq_div pos_imp_zdiv_nonneg_iff)

lemma toFixed_exact: "toFixed d (real_of_int n / 10 ^ d) = real_of_int n / 10 ^ d"
proof -
  have "\<bar>real_of_int n / 10 ^ d\<bar> * 10 ^ d = real_of_int \<bar>n\<bar>"
    by simp
  then have "\<lfloor>\<bar>real_of_int n / 10 ^ d\<bar> * 10 ^ d + 1 / 2\<rfloor> = \<bar>n\<bar>"
    by (simp only:) linarith
  moreover have "sgn (real_of_int n / 10 ^ d) = real_of_int (sgn n)"
    by (simp add: sgn_if zero_less_divide_iff)
  ultimately have "toFixed d (real_of_int n / 10 ^ d) = real_of_int (sgn n) * real_of_int \<bar>n\<bar> / 10 ^ d"
    by (simp only: toFixed_def)
  also have "real_of_int (sgn n) * real_of_int \<bar>n\<bar> = real_of_int n"
    by (simp add: sgn_if)
  finally show ?thesis .
qed

lemma similarity_value:
  "similarity (with_similarity h (i, m)) = real_of_int (60 + js_rem (sar h (i + 1)) 35) / 100"
proof -
  have "0.6 + real_of_int (js_rem (sar h (i + 1)) 35) / 100
        = real_of_int (60 + js_rem (sar h (i + 1)) 35) / 10 ^ 2"
    by simp
  then have "toFixed 2 (0.6 + real_of_int (js_rem (sar h (i + 1)) 35) / 100)
        = real_of_int (60 + js_rem (sar h (i + 1)) 35) / 10 ^ 2"
    by (simp only: toFixed_exact)
  then show ?thesis by (simp add: with_similarity_def)
qed

lemma sims_members:
  "m \<in> set (sims h) \<Longrightarrow> \<exists>i. similarity m = real_of_int (60 + js_rem (sar h (i + 1)) 35) / 100"
proof -
  assume "m \<in> set (sims h)"
  then have "m \<in> set (map (with_similarity h) (enumerate 0 pool))"
    unfolding sims_sort by (rule take_sort_set)
  then obtain i p where "m = with_similarity h (i, p)" by auto
  then show ?thesis using similarity_value by blast
qed

lemma similarity_upper: "m \<in> set (sims h) \<Longrightarrow> similarity m \<le> 0.94"
proof -
  assume "m \<in> set (sims h)"
  then obtain i where s: "similarity m = real_of_int (60 + js_rem (sar h (i + 1)) 35) / 100"
    using sims_members by blast
  have "\<bar>js_rem (sar h (i + 1)) 35\<bar> < \<bar>35\<bar>" by (rule js_rem_bound) simp
  then have "60 + js_rem (sar h (i + 1)) 35 \<le> 94" by linarith
  then have "real_of_int (60 + js_rem (sar h (i + 1)) 35) \<le> 94" by linarith
  with s show ?thesis by simp
qed

lemma similarity_lower_nonneg:
  "0 \<le> sint h \<Longrightarrow> m \<in> set (sims h) \<Longrightarrow> 0.6 \<le> similarity m"
proof -
  assume h: "0 \<le> sint h" and "m \<in> set (sims h)"
  then obtain i where s: "similarity m = real_of_int (60 + js_rem (sar h (i + 1)) 35) / 100"
    using sims_members by blast
  have "0 \<le> js_rem (sar h (i + 1)) 35"
    by (rule js_rem_nonneg) (rule sar_nonneg [OF h])
  then have "60 \<le> real_of_int (60 + js_rem (sar h (i + 1)) 35)" by linarith
  with s show ?thesis by simp
qed

lemma clamp01: "0 \<le> max 0 (min 1 x) \<and> max 0 (min 1 x) \<le> (1::real)"
  by simp

lemma clamp_bounds:
  fixes lo hi x :: real
  shows "lo \<le> hi \<Longrightarrow> lo \<le> max lo (min hi x) \<and> max lo (min hi x) \<le> hi"
  by auto

lemma budgetFeasibility_bounds: "0 \<le> budgetFeasibility b peer \<and> budgetFeasibility b peer \<le> 1"
  unfolding budgetFeasibility_def by (rule clamp01)

lemma originality_bounds: "0 \<le> originality_val h gs \<and> originality_val h gs \<le> 1"
  unfolding originality_val_def by (rule clamp01)

lemma clarity_bounds: "0 \<le> clarity_val h \<and> clarity_val h \<le> 1"
  unfolding clarity_val_def by (rule clamp01)

lemma audience_bounds: "0 \<le> audience h gs \<and> audience h gs \<le> 1"
  unfolding audience_def by (rule clamp01)

lemma productionRisk_lower: "0 \<le> productionRisk h bf"
  unfolding productionRisk_def by simp

lemma clamp_constants: "0.05 \<le> fl 0.05" "fl 0.05 \<le> fl 0.95" "fl 0.95 \<le> 0.95"
  by code_simp+

lemma p_success_bounds:
  "0.05 \<le> p_success_val b ga orig aud bf pr \<and> p_success_val b ga orig aud bf pr \<le> 0.95"
proof -
  have "fl 0.05 \<le> p_success_val b ga orig aud bf pr \<and> p_success_val b ga orig aud bf pr \<le> fl 0.95"
    unfolding p_success_val_def by (rule clamp_bounds) (rule clamp_constants)
  with clamp_constants show ?thesis by linarith
qed

lemma bounds_that_hold:
  "0.05 \<le> p_success (fst (mockScoreRequest num st pitch opts))
   \<and> p_success (fst (mockScoreRequest num st pitch opts)) \<le> 0.95
   \<and> 0 \<le> originality (radar (fst (mockScoreRequest num st pitch opts)))
   \<and> originality (radar (fst (mockScoreRequest num st pitch opts))) \<le> 1
   \<and> 0 \<le> clarity (radar (fst (mockScoreRequest num st pitch opts)))
   \<and> clarity (radar (fst (mockScoreRequest num st pitch opts))) \<le> 1
   \<and> 0 \<le> audience_appeal (radar (fst (mockScoreRequest num st pitch opts)))
   \<and> audience_appeal (radar (fst (mockScoreRequest num st pitch opts))) \<le> 1
   \<and> 0 \<le> budget_feasibility (radar (fst (mockScoreRequest num st pitch opts)))
   \<and> budget_feasibility (radar (fst (mockScoreRequest num st pitch opts))) \<le> 1
   \<and> 0 \<le> production_risk (radar (fst (mockScoreRequest num st pitch opts)))
   \<and> list_all (\<lambda>m. similarity m \<le> 0.95) (nearest_movies (fst (mockScoreRequest num st pitch opts)))"
proof -
  have s: "list_all (\<lambda>m. similarity m \<le> 0.95) (sims h)" for h
    unfolding list_all_iff using similarity_upper [of _ h] by fastforce
  note b = budgetFeasibility_bounds [of "budget pitch opts" "budgetPeer (request_genres pitch opts)"]
  show ?thesis
    unfolding mock_radar mock_p_success mock_nearest radar_profile.simps request_feasibility_def
    by (intro conjI s p_success_bounds [THEN conjunct1] p_success_bounds [THEN conjunct2]
          originality_bounds [THEN conjunct1] originality_bounds [THEN conjunct2]
          clarity_bounds [THEN conjunct1] clarity_bounds [THEN conjunct2]
          audience_bounds [THEN conjunct1] audience_bounds [THEN conjunct2]
          b [THEN conjunct1] b [THEN conjunct2] productionRisk_lower)
qed

lemma similarity_bound_for_nonnegative_hash:
  assumes "0 \<le> sint (request_hash num pitch opts)"
  shows "list_all (\<lambda>m. 0.6 \<le> similarity m) (nearest_movies (fst (mockScoreRequest num st pitch opts)))"
  unfolding list_all_iff mock_nearest using similarity_lower_nonneg [OF assms] by blast


subsection \<open>The bounds of the response\<close>

text \<open>
  Claim C1 says that for every request \<open>p_success\<close> lies in [0.05, 0.95], every radar axis
  in [0, 1] and every similarity in [0.6, 0.95]. The clamps of the code give most of it
  (\<open>bounds_that_hold\<close>), and a similarity is never below 0.6 when the top bit of the hash
  is clear (\<open>similarity_bound_for_nonnegative_hash\<close>). The code does not keep the other
  two bounds: \<open>h >> k\<close> reads the unsigned hash as a signed number, so for a hash with
  its top bit set the remainder \<open>%\<close> is negative. For the empty text and the untouched
  form all five similarities are below 0.6, and with a budget of 25,000,000 entered the
  production risk is above 1 (it alone has no \<open>Math.min(1, ...)\<close>).
\<close>

theorem bounds_violated:
  "map similarity (nearest_movies (fst (mockScoreRequest whole_number_text (\<lambda>_. 0) [] default_options)))
     = [0.53, 0.49, 0.47, 0.45, 0.39]
   \<and> 1 < production_risk (radar (fst (mockScoreRequest whole_number_text (\<lambda>_. 0) [] hint_25m_options)))
   \<and> JSON_stringify whole_number_text hint_25m_options
       = str ''{\"genres\":[],\"rating\":\"PG-13\",\"budget_hint_usd\":25000000}''
   \<and> request_hash whole_number_text [] default_options = 3127839277
   \<and> request_hash whole_number_text [] hint_25m_options = 3821752128"
  unfolding mock_nearest mock_radar radar_profile.simps by code_simp

text \<open>
  Claim C10 says that the clarity axis is never below 0.5. For a hash with its top bit
  set the code computes a negative remainder \<open>(h >> 5) % 50\<close> and the clarity falls below
  0.5: for the empty text and the untouched form the remainder is -1.
\<close>

theorem clarity_below_half:
  "clarity (radar (fst (mockScoreRequest whole_number_text (\<lambda>_. 0) [] default_options))) < 0.5
   \<and> js_rem (sar (request_hash whole_number_text [] default_options) 5) 50 = - 1"
  unfolding mock_radar radar_profile.simps by code_simp

section \<open>The budget hint\<close>





section \<open>The empty pitch\<close>

subsection \<open>Rounding errors and the exponential function\<close>

lemma rne_close: "\<bar>real_of_int (rne y) - y\<bar> \<le> 1 / 2"
proof -
  have "real_of_int \<lfloor>y\<rfloor> \<le> y" and "y < real_of_int \<lfloor>y\<rfloor> + 1" by linarith+
  then show ?thesis
    by (auto simp: rne_def Let_def)
qed

lemma binade_below_2: "\<bar>x\<bar> < 2 \<Longrightarrow> binade x \<le> 0"
proof -
  assume a: "\<bar>x\<bar> < 2"
  show ?thesis
  proof (cases "1 \<le> \<bar>x\<bar>")
    case True
    with a have "\<lfloor>\<bar>x\<bar>\<rfloor> = 1" by linarith
    with True show ?thesis by (simp add: binade_def bitlen_alt_def)
  next
    case False
    have "0 \<le> bitlen (\<lceil>1 / \<bar>x\<bar>\<rceil> - 1)" by (rule bitlen_nonneg)
    with False show ?thesis by (simp add: binade_def)
  qed
qed

lemma fl_close:
  assumes "\<bar>x\<bar> < 2"
  shows "\<bar>fl x - x\<bar> \<le> 1 / 2 ^ 53"
proof (cases "x = 0")
  case True
  then show ?thesis by (simp add: fl_def)
next
  case False
  define e where "e = max (binade x) (- 1022) - 52"
  define u :: real where "u = 2 powi e"
  have u0: "0 < u" unfolding u_def by simp
  from binade_below_2 [OF assms] have "e \<le> - 52" unfolding e_def by simp
  then have "u \<le> 2 powi (- 52)"
    unfolding u_def by (intro power_int_increasing) simp_all
  then have u52: "u \<le> 1 / 2 ^ 52"
    by (simp add: power_int_minus inverse_eq_divide)
  have f: "fl x = real_of_int (rne (x / u)) * u"
    using False by (simp add: fl_def Let_def u_def e_def)
  have "fl x - x = (real_of_int (rne (x / u)) - x / u) * u"
    using u0 by (simp add: f algebra_simps)
  then have "\<bar>fl x - x\<bar> = \<bar>real_of_int (rne (x / u)) - x / u\<bar> * u"
    using u0 by (simp add: abs_mult)
  also have "\<dots> \<le> (1 / 2) * u"
    using rne_close [of "x / u"] u0 by (intro mult_right_mono) simp_all
  also have "\<dots> \<le> (1 / 2) * (1 / 2 ^ 52)"
    using u52 by simp
  finally show ?thesis by simp
qed

lemma exp_lower_sum:
  fixes x :: real
  assumes "0 \<le> x"
  shows "(\<Sum>m<n. x ^ m / fact m) \<le> exp x"
proof -
  from Maclaurin_exp_le [of x n] obtain t where
    e: "exp x = (\<Sum>m<n. x ^ m / fact m) + exp t / fact n * x ^ n" by blast
  have "0 \<le> exp t / fact n * x ^ n"
    using assms by simp
  with e show ?thesis by linarith
qed

lemma exp_upper_sum:
  fixes x :: real
  assumes "0 \<le> x" and "x ^ n / fact n < 1"
  shows "exp x \<le> (\<Sum>m<n. x ^ m / fact m) / (1 - x ^ n / fact n)"
proof -
  from Maclaurin_exp_le [of x n] obtain t where t: "\<bar>t\<bar> \<le> \<bar>x\<bar>" and
    e: "exp x = (\<Sum>m<n. x ^ m / fact m) + exp t / fact n * x ^ n" by blast
  from t assms have "t \<le> x" by linarith
  then have "exp t \<le> exp x" by simp
  then have "exp t * (x ^ n / fact n) \<le> exp x * (x ^ n / fact n)"
    using assms by (intro mult_right_mono) simp_all
  with e have "exp x \<le> (\<Sum>m<n. x ^ m / fact m) + exp x * (x ^ n / fact n)"
    by (simp add: field_simps)
  then have "exp x * (1 - x ^ n / fact n) \<le> (\<Sum>m<n. x ^ m / fact m)"
    by (simp add: algebra_simps)
  moreover have "0 < 1 - x ^ n / fact n" using assms by simp
  ultimately show ?thesis by (simp add: pos_le_divide_eq)
qed

lemma sum8:
  fixes x :: real
  shows "(\<Sum>m<8. x ^ m / fact m)
         = 1 + x + x^2 / 2 + x^3 / 6 + x^4 / 24 + x^5 / 120 + x^6 / 720 + x^7 / 5040"
  by (simp add: eval_nat_numeral lessThan_Suc fact_numeral)

lemma exp_13332: "7581 / 2000 \<le> exp (3333 / 2500 :: real)"
proof -
  have "(7581 / 2000 :: real) \<le> (\<Sum>m<8. (3333 / 2500) ^ m / fact m)"
    unfolding sum8 by (simp add: power_divide)
  also have "\<dots> \<le> exp (3333 / 2500)" by (rule exp_lower_sum) simp
  finally show ?thesis .
qed

lemma exp_13334: "exp (6667 / 5000 :: real) \<le> 37973 / 10000"
proof -
  have "exp (6667 / 5000 :: real)
        \<le> (\<Sum>m<8. (6667 / 5000) ^ m / fact m) / (1 - (6667 / 5000) ^ 8 / fact 8)"
    by (rule exp_upper_sum) (simp_all add: fact_numeral power_divide)
  also have "\<dots> \<le> 37973 / 10000"
    unfolding sum8 by (simp add: fact_numeral power_divide)
  finally show ?thesis .
qed

lemma tanh_near_minus_two_thirds:
  fixes a :: real
  assumes "- (6667 / 10000) \<le> a" and "a \<le> - (3333 / 5000)"
  shows "- (5831 / 10000) \<le> tanh a \<and> tanh a \<le> - (233 / 400)"
proof -
  define E where "E = exp (- 2 * a)"
  from assms have "3333 / 2500 \<le> - 2 * a" and "- 2 * a \<le> 6667 / 5000" by linarith+
  then have "exp (3333 / 2500) \<le> E" and "E \<le> exp (6667 / 5000)"
    unfolding E_def by simp_all
  with exp_13332 exp_13334 have lo: "7581 / 2000 \<le> E" and hi: "E \<le> 37973 / 10000" by linarith+
  have t: "tanh a = (1 - E) / (1 + E)"
    unfolding E_def by (rule tanh_real_altdef)
  from lo have p: "0 < 1 + E" by linarith
  from lo have "1 - E \<le> - (233 / 400) - (233 / 400) * E" by linarith
  moreover have "- (233 / 400) * (1 + E) = - (233 / 400) - (233 / 400) * E"
    by (simp add: field_simps)
  ultimately have "1 - E \<le> - (233 / 400) * (1 + E)" by (simp only:)
  with p have u: "(1 - E) / (1 + E) \<le> - (233 / 400)"
    by (simp only: pos_divide_le_eq)
  from hi have "- (5831 / 10000) - (5831 / 10000) * E \<le> 1 - E" by linarith
  moreover have "- (5831 / 10000) * (1 + E) = - (5831 / 10000) - (5831 / 10000) * E"
    by (simp add: field_simps)
  ultimately have "- (5831 / 10000) * (1 + E) \<le> 1 - E" by (simp only:)
  with p have l: "- (5831 / 10000) \<le> (1 - E) / (1 + E)"
    by (simp only: pos_le_divide_eq)
  from l u show ?thesis unfolding t by simp
qed

lemma base_empty_text: "5042 / 10000 < base [] \<and> base [] < 5044 / 10000"
proof -
  define eps :: real where "eps = 1 / 2 ^ 53"
  have eps: "0 < eps" "eps < 1 / 1000000000000000" unfolding eps_def by simp_all
  define a where "a = fl ((real (length ([] :: jsstring)) - 400) / 600)"
  define t where "t = Math_tanh a"
  define v1 where "v1 = fl (t + 1)"
  define v2 where "v2 = fl (v1 * 0.25)"
  define c where "c = fl 0.4"
  define v3 where "v3 = fl (c + v2)"
  define d where "d = fl 0.95"
  have b: "base [] = min v3 d"
    unfolding base_def v3_def c_def v2_def v1_def t_def a_def d_def ..
  have "a = fl (- (2 / 3))" unfolding a_def by simp
  moreover have "- (6667 / 10000) \<le> fl (- (2 / 3)) \<and> fl (- (2 / 3)) \<le> - (3333 / 5000)"
    by code_simp
  ultimately have a: "- (6667 / 10000) \<le> a" "a \<le> - (3333 / 5000)" by simp_all
  note th = tanh_near_minus_two_thirds [OF a]
  from th have "\<bar>tanh a\<bar> < 2" by linarith
  from fl_close [OF this] have "\<bar>t - tanh a\<bar> \<le> eps"
    unfolding t_def Math_tanh_def eps_def .
  with th eps have t: "- (583101 / 1000000) \<le> t" "t \<le> - (582499 / 1000000)" by linarith+
  then have "\<bar>t + 1\<bar> < 2" by linarith
  from fl_close [OF this] have "\<bar>v1 - (t + 1)\<bar> \<le> eps"
    unfolding v1_def eps_def .
  with t eps have v1: "416898 / 1000000 \<le> v1" "v1 \<le> 417502 / 1000000" by linarith+
  then have "\<bar>v1 * (1 / 4)\<bar> < 2" by linarith
  then have "\<bar>v1 * 0.25\<bar> < 2" by simp
  from fl_close [OF this] have "\<bar>v2 - v1 * 0.25\<bar> \<le> eps"
    unfolding v2_def eps_def .
  then have "\<bar>v2 - v1 * (1 / 4)\<bar> \<le> eps" by simp
  with v1 eps have v2: "104224 / 1000000 \<le> v2" "v2 \<le> 104376 / 1000000" by linarith+
  have "\<bar>0.4 :: real\<bar> < 2" by simp
  from fl_close [OF this] have "\<bar>c - 0.4\<bar> \<le> eps"
    unfolding c_def eps_def .
  then have "\<bar>c - 4 / 10\<bar> \<le> eps" by simp
  with eps have c: "399999 / 1000000 \<le> c" "c \<le> 400001 / 1000000" by linarith+
  with v2 have "\<bar>c + v2\<bar> < 2" by linarith
  from fl_close [OF this] have "\<bar>v3 - (c + v2)\<bar> \<le> eps"
    unfolding v3_def eps_def .
  with c v2 eps have v3: "5042 / 10000 < v3" "v3 < 5044 / 10000" by linarith+
  have "\<bar>0.95 :: real\<bar> < 2" by simp
  from fl_close [OF this] have "\<bar>d - 0.95\<bar> \<le> eps"
    unfolding d_def eps_def .
  then have "\<bar>d - 95 / 100\<bar> \<le> eps" by simp
  with eps have "9 / 10 \<le> d" by linarith
  with v3 have "min v3 d = v3" by simp
  with v3 show ?thesis unfolding b by simp
qed

text \<open>
  Claim C3, amended. For the request with the empty text, no genres, the rating PG-13
  and no budget hint, the effective genres are \<open>[Drama]\<close>, the resolved budget is
  8,000,000, the base term at text length 0 is approximately 0.5043, \<open>p_success\<close> is
  computed from that base by the formula of the engine and lies in [0.05, 0.95], and
  the five radar axes lie in [0, 1].
\<close>

theorem empty_pitch_scenario:
  "genreGuess (fst (mockScoreRequest whole_number_text (\<lambda>_. 0) [] default_options)) = [Drama]
   \<and> budget [] default_options = 8000000
   \<and> \<bar>base [] - 0.5043\<bar> < 0.0001
   \<and> p_success (fst (mockScoreRequest whole_number_text (\<lambda>_. 0) [] default_options)) =
       p_success_val (base []) (genreAdj [Drama]) (originality (radar (fst (mockScoreRequest whole_number_text (\<lambda>_. 0) [] default_options)))) (audience_appeal (radar (fst (mockScoreRequest whole_number_text (\<lambda>_. 0) [] default_options))))
         (budget_feasibility (radar (fst (mockScoreRequest whole_number_text (\<lambda>_. 0) [] default_options)))) (production_risk (radar (fst (mockScoreRequest whole_number_text (\<lambda>_. 0) [] default_options))))
   \<and> 0.05 \<le> p_success (fst (mockScoreRequest whole_number_text (\<lambda>_. 0) [] default_options)) \<and> p_success (fst (mockScoreRequest whole_number_text (\<lambda>_. 0) [] default_options)) \<le> 0.95
   \<and> 0 \<le> originality (radar (fst (mockScoreRequest whole_number_text (\<lambda>_. 0) [] default_options))) \<and> originality (radar (fst (mockScoreRequest whole_number_text (\<lambda>_. 0) [] default_options))) \<le> 1
   \<and> 0 \<le> clarity (radar (fst (mockScoreRequest whole_number_text (\<lambda>_. 0) [] default_options))) \<and> clarity (radar (fst (mockScoreRequest whole_number_text (\<lambda>_. 0) [] default_options))) \<le> 1
   \<and> 0 \<le> audience_appeal (radar (fst (mockScoreRequest whole_number_text (\<lambda>_. 0) [] default_options))) \<and> audience_appeal (radar (fst (mockScoreRequest whole_number_text (\<lambda>_. 0) [] default_options))) \<le> 1
   \<and> 0 \<le> budget_feasibility (radar (fst (mockScoreRequest whole_number_text (\<lambda>_. 0) [] default_options))) \<and> budget_feasibility (radar (fst (mockScoreRequest whole_number_text (\<lambda>_. 0) [] default_options))) \<le> 1
   \<and> 0 \<le> production_risk (radar (fst (mockScoreRequest whole_number_text (\<lambda>_. 0) [] default_options))) \<and> production_risk (radar (fst (mockScoreRequest whole_number_text (\<lambda>_. 0) [] default_options))) \<le> 1"
proof -
  have g: "request_genres [] default_options = [Drama]" by code_simp
  have c1: "genreGuess (fst (mockScoreRequest whole_number_text (\<lambda>_. 0) [] default_options)) = [Drama]"
    unfolding mock_genreGuess by (rule g)
  have c2: "budget [] default_options = 8000000" by code_simp
  from base_empty_text have "\<bar>base [] - 5043 / 10000\<bar> < 1 / 10000" by linarith
  then have c3: "\<bar>base [] - 0.5043\<bar> < 0.0001" by simp
  have c4: "p_success (fst (mockScoreRequest whole_number_text (\<lambda>_. 0) [] default_options)) =
       p_success_val (base []) (genreAdj [Drama]) (originality (radar (fst (mockScoreRequest whole_number_text (\<lambda>_. 0) [] default_options)))) (audience_appeal (radar (fst (mockScoreRequest whole_number_text (\<lambda>_. 0) [] default_options))))
         (budget_feasibility (radar (fst (mockScoreRequest whole_number_text (\<lambda>_. 0) [] default_options)))) (production_risk (radar (fst (mockScoreRequest whole_number_text (\<lambda>_. 0) [] default_options))))"
    unfolding mock_p_success mock_radar radar_profile.simps g ..
  have c5: "production_risk (radar (fst (mockScoreRequest whole_number_text (\<lambda>_. 0) [] default_options))) \<le> 1"
    unfolding mock_radar radar_profile.simps by code_simp
  note b = bounds_that_hold [of whole_number_text "\<lambda>_. 0" "[]" default_options]
  show ?thesis
    by (intro conjI c1 c2 c3 c4 c5
          b [THEN conjunct1]
          b [THEN conjunct2, THEN conjunct1]
          b [THEN conjunct2, THEN conjunct2, THEN conjunct1]
          b [THEN conjunct2, THEN conjunct2, THEN conjunct2, THEN conjunct1]
          b [THEN conjunct2, THEN conjunct2, THEN conjunct2, THEN conjunct2, THEN conjunct1]
          b [THEN conjunct2, THEN conjunct2, THEN conjunct2, THEN conjunct2, THEN conjunct2, THEN conjunct1]
          b [THEN conjunct2, THEN conjunct2, THEN conjunct2, THEN conjunct2, THEN conjunct2, THEN conjunct2,
             THEN conjunct1]
          b [THEN conjunct2, THEN conjunct2, THEN conjunct2, THEN conjunct2, THEN conjunct2, THEN conjunct2,
             THEN conjunct2, THEN conjunct1]
          b [THEN conjunct2, THEN conjunct2, THEN conjunct2, THEN conjunct2, THEN conjunct2, THEN conjunct2,
             THEN conjunct2, THEN conjunct2, THEN conjunct1]
          b [THEN conjunct2, THEN conjunct2, THEN conjunct2, THEN conjunct2, THEN conjunct2, THEN conjunct2,
             THEN conjunct2, THEN conjunct2, THEN conjunct2, THEN conjunct1]
          b [THEN conjunct2, THEN conjunct2, THEN conjunct2, THEN conjunct2, THEN conjunct2, THEN conjunct2,
             THEN conjunct2, THEN conjunct2, THEN conjunct2, THEN conjunct2, THEN conjunct1])
qed

text \<open>
  The claim as stated fails: the base term at text length 0 is above 0.5, not near
  0.4167; and the similarities of this response are below 0.6.
\<close>

theorem empty_pitch_counterexample:
  "0.5 < base []
   \<and> map similarity (nearest_movies (fst (mockScoreRequest whole_number_text (\<lambda>_. 0) [] default_options))) = [0.53, 0.49, 0.47, 0.45, 0.39]"
proof -
  from base_empty_text have "5 / 10 < base []" by linarith
  then have a: "0.5 < base []" by simp
  have b: "map similarity (nearest_movies (fst (mockScoreRequest whole_number_text (\<lambda>_. 0) [] default_options))) = [0.53, 0.49, 0.47, 0.45, 0.39]"
    unfolding mock_nearest by code_simp
  show ?thesis by (intro conjI a b)
qed

end
